theory Spec2Isabelle
  imports Complex_Main "HOL-Library.Sublist" "HOL-Library.Word"
begin

section \<open>Python values used by \<open>scan_receipt\<close>\<close>

text \<open>
  The receipt scanner of \<^verbatim>\<open>backend/server.py\<close> is one handler, \<^verbatim>\<open>scan_receipt\<close>:
  it sniffs the upload's format, re-encodes the image with Pillow, sends it to the
  vision provider and turns the provider's text into a \<^verbatim>\<open>ReceiptScanResult\<close>.
  The model follows the handler statement by statement. What belongs to a library
  (Pillow's codecs, \<^verbatim>\<open>json.loads\<close>, pydantic's reading of a value as a float, the
  clock) is a parameter of the model; what the
  handler computes itself (signature tests, the resize arithmetic, the fence stripping,
  the field extraction) is defined here.
\<close>

subsection \<open>Exceptions\<close>

text \<open>
  An exception is represented by its class. The handler turns every exception into an
  \<^verbatim>\<open>HTTPException\<close> with a status code and a detail text; the detail is kept as a
  constructor, with the exception it quotes.
\<close>

datatype py_exception =
    JSONDecodeError
  | ValueError
  | TypeError
  | OverflowError
  | ZeroDivisionError
  | AttributeError
  | ValidationError
  | IndexError
  | RecursionError
  | UnidentifiedImageError
  | OSError

datatype detail =
    PDF_files_are_not_yet_supported
  | Could_not_process_image py_exception
  | Failed_to_parse_AI_response
  | Failed_to_scan_receipt py_exception

datatype http_exception = HTTPException (status_code: nat) (detail: detail)

subsection \<open>Floats\<close>

text \<open>
  A Python \<^verbatim>\<open>float\<close> is an IEEE 754 double: a finite value is the rational number it
  denotes, and there are two infinities and NaN. The sign of zero is not represented.
  Every arithmetic operation rounds the exact result to the nearest double, ties to even
  (\<open>round_double\<close>): 53 significant bits, exponents from \<open>-1022\<close> (below that the
  spacing stays \<open>2 ^ -1074\<close>) and overflow to infinity from \<open>2 ^ 1024\<close> on.
\<close>

datatype pyfloat = Finite rat | PosInf | NegInf | NaN

fun bit_length :: "nat \<Rightarrow> nat" where
  "bit_length n = (if n = 0 then 0 else Suc (bit_length (n div 2)))"

declare bit_length.simps [simp del]

definition pow2 :: "int \<Rightarrow> rat" where
  "pow2 e = (if 0 \<le> e then 2 ^ nat e else 1 / 2 ^ nat (- e))"

definition floor_log2 :: "rat \<Rightarrow> int" where
  \<comment> \<open>for \<open>0 < x\<close>: the \<open>e\<close> with \<open>2 ^ e \<le> x < 2 ^ (e + 1)\<close>\<close>
  "floor_log2 x =
     (if 1 \<le> x then int (bit_length (nat \<lfloor>x\<rfloor>)) - 1
      else - int (bit_length (nat (\<lceil>1 / x\<rceil> - 1))))"

definition round_half_even :: "rat \<Rightarrow> int" where
  "round_half_even q =
     (let f = \<lfloor>q\<rfloor>; d = q - of_int f
      in if d < 1 / 2 then f
         else if 1 / 2 < d then f + 1
         else if even f then f else f + 1)"

definition scale_round :: "rat \<Rightarrow> rat \<Rightarrow> rat" where
  \<comment> \<open>the multiple of \<open>ulp\<close> nearest to \<open>a\<close>\<close>
  "scale_round a ulp = of_int (round_half_even (a / ulp)) * ulp"

definition overflow_check :: "bool \<Rightarrow> rat \<Rightarrow> pyfloat" where
  "overflow_check positive r =
     (if 2 ^ 1024 \<le> r then (if positive then PosInf else NegInf)
      else Finite (if positive then r else - r))"

definition round_double :: "rat \<Rightarrow> pyfloat" where
  "round_double x =
     (if x = 0 then Finite 0
      else overflow_check (0 < x)
             (scale_round \<bar>x\<bar> (pow2 (max (floor_log2 \<bar>x\<bar>) (- 1022) - 52))))"

definition float_of_int :: "int \<Rightarrow> py_exception + pyfloat" where
  \<comment> \<open>\<^verbatim>\<open>float(n)\<close> for an int: correctly rounded, OverflowError when out of range\<close>
  "float_of_int n =
     (case round_double (of_int n) of
        Finite r \<Rightarrow> Inr (Finite r)
      | _ \<Rightarrow> Inl OverflowError)"

definition int_truediv :: "int \<Rightarrow> int \<Rightarrow> py_exception + pyfloat" where
  \<comment> \<open>\<^verbatim>\<open>a / b\<close> on ints: the correctly rounded quotient\<close>
  "int_truediv a b =
     (if b = 0 then Inl ZeroDivisionError
      else case round_double (of_int a / of_int b) of
             Finite r \<Rightarrow> Inr (Finite r)
           | _ \<Rightarrow> Inl OverflowError)"

fun float_mul :: "pyfloat \<Rightarrow> pyfloat \<Rightarrow> pyfloat" where
  "float_mul (Finite a) (Finite b) = round_double (a * b)"
| "float_mul NaN _ = NaN"
| "float_mul _ NaN = NaN"
| "float_mul (Finite a) PosInf = (if a = 0 then NaN else if 0 < a then PosInf else NegInf)"
| "float_mul (Finite a) NegInf = (if a = 0 then NaN else if 0 < a then NegInf else PosInf)"
| "float_mul PosInf (Finite b) = (if b = 0 then NaN else if 0 < b then PosInf else NegInf)"
| "float_mul NegInf (Finite b) = (if b = 0 then NaN else if 0 < b then NegInf else PosInf)"
| "float_mul PosInf PosInf = PosInf"
| "float_mul PosInf NegInf = NegInf"
| "float_mul NegInf PosInf = NegInf"
| "float_mul NegInf NegInf = PosInf"

definition int_mul_float :: "int \<Rightarrow> pyfloat \<Rightarrow> py_exception + pyfloat" where
  \<comment> \<open>\<^verbatim>\<open>n * x\<close> with an int \<open>n\<close>: \<open>n\<close> is converted to a float first\<close>
  "int_mul_float n x =
     (case float_of_int n of Inl e \<Rightarrow> Inl e | Inr y \<Rightarrow> Inr (float_mul y x))"

fun float_less :: "pyfloat \<Rightarrow> pyfloat \<Rightarrow> bool" where
  "float_less NaN _ = False"
| "float_less _ NaN = False"
| "float_less (Finite a) (Finite b) = (a < b)"
| "float_less NegInf NegInf = False"
| "float_less NegInf _ = True"
| "float_less _ NegInf = False"
| "float_less PosInf _ = False"
| "float_less (Finite a) PosInf = True"

definition py_min :: "pyfloat \<Rightarrow> pyfloat \<Rightarrow> pyfloat" where
  \<comment> \<open>\<^verbatim>\<open>min(a, b)\<close>: the first argument unless the second is smaller\<close>
  "py_min a b = (if float_less b a then b else a)"

fun int_of_float :: "pyfloat \<Rightarrow> py_exception + int" where
  \<comment> \<open>\<^verbatim>\<open>int(x)\<close>: truncation towards zero\<close>
  "int_of_float (Finite r) = Inr (if 0 \<le> r then \<lfloor>r\<rfloor> else \<lceil>r\<rceil>)"
| "int_of_float NaN = Inl ValueError"
| "int_of_float _ = Inl OverflowError"

section \<open>Image normalisation\<close>

text \<open>
  Lines 297 to 344 of the handler. The upload is a byte string with a content type the
  client claims. A Pillow image is its size, its mode and its pixel data; the library
  calls are the fields of \<open>pil\<close>: \<^verbatim>\<open>Image.open\<close>, \<^verbatim>\<open>convert('RGB')\<close>, the LANCZOS
  resampling of the pixel data and the JPEG encoder at a quality.
  \<^verbatim>\<open>resize\<close> refuses a size with a zero side (ValueError). The result of the
  normalisation is the encoded content with its type; \<open>out_image\<close> is the image that
  was encoded and \<open>encodes\<close> the qualities of the encoder calls, in order.
\<close>

type_synonym byte = "8 word"

record upload_file =
  content_type :: "string option"
  content :: "byte list"

record 'p image =
  width :: nat
  height :: nat
  mode :: string
  pixels :: 'p

record 'p pil =
  pil_open :: "byte list \<Rightarrow> py_exception + 'p image"
  pil_convert_rgb :: "'p \<Rightarrow> 'p"
  pil_lanczos :: "'p image \<Rightarrow> nat \<times> nat \<Rightarrow> 'p"
  pil_save_jpeg :: "'p image \<Rightarrow> nat \<Rightarrow> py_exception + byte list"

record 'p normalized =
  out_content :: "byte list"
  out_type :: string
  out_image :: "'p image"
  encodes :: "nat list"

definition png_signature :: "byte list" where
  "png_signature = [0x89, 0x50, 0x4E, 0x47, 0x0D, 0x0A, 0x1A, 0x0A]"

definition jpeg_signature :: "byte list" where
  "jpeg_signature = [0xFF, 0xD8]"

definition riff_marker :: "byte list" where
  "riff_marker = [0x52, 0x49, 0x46, 0x46]"

definition webp_marker :: "byte list" where
  "webp_marker = [0x57, 0x45, 0x42, 0x50]"

definition pdf_signature :: "byte list" where
  "pdf_signature = [0x25, 0x50, 0x44, 0x46]"

definition detect_type :: "byte list \<Rightarrow> string" where
  "detect_type c =
     (if take 8 c = png_signature then ''image/png''
      else if take 2 c = jpeg_signature then ''image/jpeg''
      else if take 4 c = riff_marker \<and> take 4 (drop 8 c) = webp_marker then ''image/webp''
      else if take 4 c = pdf_signature then ''application/pdf''
      else ''image/jpeg'')"

definition max_dimension :: nat where
  "max_dimension = 1500"

definition scale_ratio :: "nat \<Rightarrow> nat \<Rightarrow> py_exception + pyfloat" where
  \<comment> \<open>\<^verbatim>\<open>min(max_dimension / img.width, max_dimension / img.height)\<close>\<close>
  "scale_ratio w h =
     (case int_truediv (int max_dimension) (int w) of
        Inl e \<Rightarrow> Inl e
      | Inr rw \<Rightarrow>
          (case int_truediv (int max_dimension) (int h) of
             Inl e \<Rightarrow> Inl e
           | Inr rh \<Rightarrow> Inr (py_min rw rh)))"

definition scaled :: "nat \<Rightarrow> pyfloat \<Rightarrow> py_exception + int" where
  \<comment> \<open>\<^verbatim>\<open>int(side * ratio)\<close>\<close>
  "scaled side ratio =
     (case int_mul_float (int side) ratio of
        Inl e \<Rightarrow> Inl e
      | Inr f \<Rightarrow> int_of_float f)"

definition new_size :: "nat \<Rightarrow> nat \<Rightarrow> py_exception + (int \<times> int)" where
  "new_size w h =
     (case scale_ratio w h of
        Inl e \<Rightarrow> Inl e
      | Inr ratio \<Rightarrow>
          (case scaled w ratio of
             Inl e \<Rightarrow> Inl e
           | Inr nw \<Rightarrow>
               (case scaled h ratio of
                  Inl e \<Rightarrow> Inl e
                | Inr nh \<Rightarrow> Inr (nw, nh))))"

definition pil_resize :: "'p pil \<Rightarrow> 'p image \<Rightarrow> int \<times> int \<Rightarrow> py_exception + 'p image" where
  "pil_resize P img sz =
     (if fst sz < 1 \<or> snd sz < 1 then Inl ValueError
      else Inr (img\<lparr>width := nat (fst sz), height := nat (snd sz),
                     pixels := pil_lanczos P img (nat (fst sz), nat (snd sz))\<rparr>))"

definition to_rgb :: "'p pil \<Rightarrow> 'p image \<Rightarrow> 'p image" where
  "to_rgb P img =
     (if mode img \<noteq> ''RGB'' then img\<lparr>mode := ''RGB'', pixels := pil_convert_rgb P (pixels img)\<rparr>
      else img)"

definition downscale :: "'p pil \<Rightarrow> 'p image \<Rightarrow> py_exception + 'p image" where
  "downscale P img =
     (if max_dimension < width img \<or> max_dimension < height img then
        (case new_size (width img) (height img) of
           Inl e \<Rightarrow> Inl e
         | Inr sz \<Rightarrow> pil_resize P img sz)
      else Inr img)"

definition size_ceiling :: nat where
  "size_ceiling = 3 * 1024 * 1024"

definition save_jpeg ::
  "'p pil \<Rightarrow> 'p image \<Rightarrow> nat \<Rightarrow> nat list \<Rightarrow> (py_exception + byte list) \<times> nat list" where
  \<comment> \<open>\<^verbatim>\<open>img.save(buffer, format='JPEG', quality=q, optimize=True)\<close> and
      \<^verbatim>\<open>buffer.getvalue()\<close>; the call is added to the list of calls made so far\<close>
  "save_jpeg P img q calls = (pil_save_jpeg P img q, calls @ [q])"

definition encode_jpeg :: "'p pil \<Rightarrow> 'p image \<Rightarrow> py_exception + 'p normalized" where
  "encode_jpeg P img =
     (case save_jpeg P img 85 [] of
        (Inl e, calls) \<Rightarrow> Inl e
      | (Inr c85, calls) \<Rightarrow>
          if size_ceiling < length c85 then
            (case save_jpeg P img 50 calls of
               (Inl e, calls') \<Rightarrow> Inl e
             | (Inr c50, calls') \<Rightarrow>
                 Inr \<lparr>out_content = c50, out_type = ''image/jpeg'', out_image = img,
                      encodes = calls'\<rparr>)
          else
            Inr \<lparr>out_content = c85, out_type = ''image/jpeg'', out_image = img,
                 encodes = calls\<rparr>)"

definition process_image :: "'p pil \<Rightarrow> byte list \<Rightarrow> py_exception + 'p normalized" where
  \<comment> \<open>the body of the first \<^verbatim>\<open>try\<close> block\<close>
  "process_image P c =
     (case pil_open P c of
        Inl e \<Rightarrow> Inl e
      | Inr img \<Rightarrow>
          (case downscale P (to_rgb P img) of
             Inl e \<Rightarrow> Inl e
           | Inr img' \<Rightarrow> encode_jpeg P img'))"

definition normalize_image :: "'p pil \<Rightarrow> upload_file \<Rightarrow> http_exception + 'p normalized" where
  "normalize_image P file =
     (let c = content file; detected_type = detect_type c
      in if detected_type = ''application/pdf'' then
           Inl (HTTPException 400 PDF_files_are_not_yet_supported)
         else
           (case process_image P c of
              Inl e \<Rightarrow> Inl (HTTPException 400 (Could_not_process_image e))
            | Inr n \<Rightarrow> Inr n))"

section \<open>Parsing the provider's text\<close>

text \<open>
  Lines 414 to 441 of the handler. A Python \<^verbatim>\<open>str\<close> is a \<open>string\<close>; the characters
  of the model are the code points below 256. The value \<^verbatim>\<open>json.loads\<close> returns is a
  \<open>json\<close>: \<^verbatim>\<open>None\<close>, a bool, an int, a float, a str, a list or a dict, the dict as the
  list of its items (a dict has one item for a key, so the first item found is the only one).
  \<^verbatim>\<open>json.loads\<close> itself is the parameter \<open>loads\<close>: it gives the value, or the
  exception it raises, which is JSONDecodeError for a text that is not JSON.
\<close>

datatype json =
    JNull
  | JBool bool
  | JInt int
  | JFloat pyfloat
  | JStr string
  | JList "json list"
  | JDict "(string \<times> json) list"

subsection \<open>String operations\<close>

definition whitespace :: string where
  \<comment> \<open>the code points below 256 for which \<^verbatim>\<open>str.isspace\<close> holds\<close>
  "whitespace =
     [CHR 0x09, CHR 0x0A, CHR 0x0B, CHR 0x0C, CHR 0x0D, CHR 0x1C, CHR 0x1D, CHR 0x1E,
      CHR 0x1F, CHR 0x20, CHR 0x85, CHR 0xA0]"

definition isspace :: "char \<Rightarrow> bool" where
  "isspace c = (c \<in> set whitespace)"

definition py_strip :: "string \<Rightarrow> string" where
  \<comment> \<open>\<^verbatim>\<open>s.strip()\<close>\<close>
  "py_strip s = rev (dropWhile isspace (rev (dropWhile isspace s)))"

fun py_partition :: "string \<Rightarrow> string \<Rightarrow> (string \<times> string) option" where
  \<comment> \<open>the text before and the text after the first occurrence of \<open>sep\<close>\<close>
  "py_partition sep [] = None"
| "py_partition sep (c # cs) =
     (if prefix sep (c # cs) then Some ([], drop (length sep) (c # cs))
      else map_option (\<lambda>(b, a). (c # b, a)) (py_partition sep cs))"

lemma py_partition_shorter:
  "py_partition sep s = Some (b, a) \<Longrightarrow> sep \<noteq> [] \<Longrightarrow> length a < length s"
proof (induction s arbitrary: b)
  case Nil
  then show ?case by simp
next
  case (Cons c cs)
  show ?case
  proof (cases "prefix sep (c # cs)")
    case True
    with Cons.prems show ?thesis by (cases sep) auto
  next
    case False
    with Cons.prems obtain b' where "py_partition sep cs = Some (b', a)"
      by auto
    with Cons.IH Cons.prems(2) show ?thesis by fastforce
  qed
qed

function py_split :: "string \<Rightarrow> string \<Rightarrow> string list" where
  \<comment> \<open>\<^verbatim>\<open>s.split(sep)\<close> for a separator that is not empty, as the two in the handler\<close>
  "py_split sep s =
     (if sep = [] then [s]
      else case py_partition sep s of
             None \<Rightarrow> [s]
           | Some (b, a) \<Rightarrow> b # py_split sep a)"
  by pat_completeness auto
termination
  by (relation "measure (\<lambda>(sep, s). length s)") (auto simp: py_partition_shorter)

declare py_split.simps [simp del]

definition py_index :: "'a list \<Rightarrow> nat \<Rightarrow> py_exception + 'a" where
  \<comment> \<open>\<^verbatim>\<open>xs[i]\<close> for \<open>i \<ge> 0\<close>\<close>
  "py_index xs i = (if i < length xs then Inr (xs ! i) else Inl IndexError)"

definition fence_json :: string where
  "fence_json = ''```json''"

definition fence :: string where
  "fence = ''```''"

definition between_fences :: "string \<Rightarrow> string \<Rightarrow> py_exception + string" where
  \<comment> \<open>\<^verbatim>\<open>text.split(opening)[1].split("```")[0]\<close>\<close>
  "between_fences opening t =
     (case py_index (py_split opening t) 1 of
        Inl e \<Rightarrow> Inl e
      | Inr inner \<Rightarrow> py_index (py_split fence inner) 0)"

definition strip_fence :: "string \<Rightarrow> py_exception + string" where
  "strip_fence t =
     (if sublist fence_json t then between_fences fence_json t
      else if sublist fence t then between_fences fence t
      else Inr t)"

subsection \<open>The built-in \<^verbatim>\<open>float\<close>\<close>

text \<open>
  \<^verbatim>\<open>float(s)\<close> on a str drops the white space at both ends, checks that every
  underscore stands between two digits and drops it, and reads a sign followed by
  \<^verbatim>\<open>inf\<close>, \<^verbatim>\<open>infinity\<close>, \<^verbatim>\<open>nan\<close> (in any case) or a decimal numeral with an
  optional exponent. The value is rounded to the nearest double. Anything else is a
  ValueError. The white space of \<^verbatim>\<open>float\<close> is narrower than that of \<^verbatim>\<open>str.strip\<close>:
  tab, line feed, vertical tab, form feed, carriage return and space, and the code
  points 0x85 and 0xA0, which \<^verbatim>\<open>float\<close> turns into spaces first; the separators 0x1C
  to 0x1F are not part of it.
\<close>

definition float_whitespace :: string where
  "float_whitespace = [CHR 0x09, CHR 0x0A, CHR 0x0B, CHR 0x0C, CHR 0x0D, CHR 0x20, CHR 0x85, CHR 0xA0]"

definition float_space :: "char \<Rightarrow> bool" where
  "float_space c = (c \<in> set float_whitespace)"

definition float_strip :: "string \<Rightarrow> string" where
  "float_strip s = rev (dropWhile float_space (rev (dropWhile float_space s)))"

definition isdigit :: "char \<Rightarrow> bool" where
  "isdigit c = (c \<in> set ''0123456789'')"

definition digit_value :: "char \<Rightarrow> nat" where
  "digit_value c = of_char c - 48"

fun digits_value :: "nat \<Rightarrow> string \<Rightarrow> nat" where
  "digits_value acc [] = acc"
| "digits_value acc (c # cs) = digits_value (10 * acc + digit_value c) cs"

fun remove_underscores :: "char option \<Rightarrow> string \<Rightarrow> string option" where
  "remove_underscores prev [] = (if prev = Some CHR ''_'' then None else Some [])"
| "remove_underscores prev (c # cs) =
     (if c = CHR ''_'' then
        (if (case prev of None \<Rightarrow> False | Some p \<Rightarrow> isdigit p)
         then remove_underscores (Some c) cs else None)
      else if prev = Some CHR ''_'' \<and> \<not> isdigit c then None
      else map_option ((#) c) (remove_underscores (Some c) cs))"

definition sign_split :: "string \<Rightarrow> bool \<times> string" where
  "sign_split s =
     (case s of
        [] \<Rightarrow> (False, [])
      | c # cs \<Rightarrow>
          if c = CHR ''-'' then (True, cs)
          else if c = CHR ''+'' then (False, cs)
          else (False, s))"

definition lower :: "char \<Rightarrow> char" where
  "lower c =
     (case map_of (zip ''ABCDEFGHIJKLMNOPQRSTUVWXYZ'' ''abcdefghijklmnopqrstuvwxyz'') c of
        None \<Rightarrow> c
      | Some l \<Rightarrow> l)"

definition pow10 :: "int \<Rightarrow> rat" where
  "pow10 e = (if 0 \<le> e then 10 ^ nat e else 1 / 10 ^ nat (- e))"

definition exponent_of :: "string \<Rightarrow> int option" where
  \<comment> \<open>the exponent part, which may be missing\<close>
  "exponent_of s =
     (case s of
        [] \<Rightarrow> Some 0
      | c # cs \<Rightarrow>
          if c = CHR ''e'' \<or> c = CHR ''E'' then
            (case sign_split cs of
               (neg, ds) \<Rightarrow>
                 if ds \<noteq> [] \<and> list_all isdigit ds
                 then Some (if neg then - int (digits_value 0 ds) else int (digits_value 0 ds))
                 else None)
          else None)"

definition fraction_split :: "string \<Rightarrow> string \<times> string" where
  \<comment> \<open>the digits after a decimal point, and what follows them\<close>
  "fraction_split s =
     (case s of
        [] \<Rightarrow> ([], [])
      | c # cs \<Rightarrow>
          if c = CHR ''.'' then (takeWhile isdigit cs, dropWhile isdigit cs)
          else ([], s))"

definition decimal_value :: "string \<Rightarrow> string \<Rightarrow> int \<Rightarrow> rat" where
  "decimal_value ip fp e = of_nat (digits_value 0 (ip @ fp)) * pow10 (e - int (length fp))"

definition parse_mantissa :: "string \<Rightarrow> string \<times> string \<Rightarrow> rat option" where
  "parse_mantissa ip fr =
     (if ip = [] \<and> fst fr = [] then None
      else map_option (decimal_value ip (fst fr)) (exponent_of (snd fr)))"

definition parse_decimal :: "string \<Rightarrow> rat option" where
  "parse_decimal s = parse_mantissa (takeWhile isdigit s) (fraction_split (dropWhile isdigit s))"

definition parse_unsigned :: "bool \<Rightarrow> string \<Rightarrow> py_exception + pyfloat" where
  "parse_unsigned neg u =
     (if map lower u = ''inf'' \<or> map lower u = ''infinity'' then
        Inr (if neg then NegInf else PosInf)
      else if map lower u = ''nan'' then Inr NaN
      else
        (case parse_decimal u of
           None \<Rightarrow> Inl ValueError
         | Some q \<Rightarrow> Inr (round_double (if neg then - q else q))))"

definition float_of_str :: "string \<Rightarrow> py_exception + pyfloat" where
  "float_of_str s =
     (case remove_underscores None (float_strip s) of
        None \<Rightarrow> Inl ValueError
      | Some t \<Rightarrow> parse_unsigned (fst (sign_split t)) (snd (sign_split t)))"

fun py_float :: "json \<Rightarrow> py_exception + pyfloat" where
  \<comment> \<open>\<^verbatim>\<open>float(v)\<close> on a value that \<^verbatim>\<open>json.loads\<close> can return\<close>
  "py_float (JFloat x) = Inr x"
| "py_float (JInt n) = float_of_int n"
| "py_float (JBool b) = Inr (Finite (if b then 1 else 0))"
| "py_float (JStr s) = float_of_str s"
| "py_float JNull = Inl TypeError"
| "py_float (JList xs) = Inl TypeError"
| "py_float (JDict d) = Inl TypeError"

subsection \<open>The pydantic models\<close>

text \<open>
  \<^verbatim>\<open>LineItem\<close> and \<^verbatim>\<open>ReceiptScanResult\<close> are pydantic models with the default
  configuration: a keyword that is not a field is ignored, a missing field takes its
  default, and each value is validated against the field's type. A \<^verbatim>\<open>str\<close> field
  accepts a str only and an \<^verbatim>\<open>Optional\<close> field accepts \<^verbatim>\<open>None\<close> as well. Which
  values pydantic takes for a \<^verbatim>\<open>float\<close> field, and as which float, is the library's
  matter (it reads some strs as numbers, by rules of its own): the model takes that
  validation as the parameter \<open>vf\<close>, where \<open>None\<close> is a refusal. A value that is
  refused raises ValidationError. The default \<^verbatim>\<open>1\<close> of \<^verbatim>\<open>quantity\<close> is the float of
  the same value here.
\<close>

record LineItem =
  description :: string
  quantity :: "pyfloat option"
  unit_price :: "pyfloat option"
  total_field :: "pyfloat option"

record ReceiptScanResult =
  vendor :: string
  date :: string
  amount :: pyfloat
  currency :: string
  category :: string
  payment_method :: "string option"
  receipt_number :: "string option"
  line_items :: "LineItem list"
  confidence_score :: pyfloat

fun validate_str :: "json \<Rightarrow> string option" where
  "validate_str (JStr s) = Some s"
| "validate_str _ = None"

fun validate_optional_str :: "json \<Rightarrow> string option option" where
  "validate_optional_str JNull = Some None"
| "validate_optional_str v = map_option Some (validate_str v)"

fun validate_optional_float :: "(json \<Rightarrow> pyfloat option) \<Rightarrow> json \<Rightarrow> pyfloat option option" where
  "validate_optional_float vf JNull = Some None"
| "validate_optional_float vf v = map_option Some (vf v)"

definition field :: "(string \<times> json) list \<Rightarrow> string \<Rightarrow> 'a option \<Rightarrow> (json \<Rightarrow> 'a option) \<Rightarrow> 'a option" where
  \<comment> \<open>a field of a model: its default when the keyword is missing (\<open>None\<close> when the
      field is required), the validated value otherwise\<close>
  "field kw name dflt validate = (case map_of kw name of None \<Rightarrow> dflt | Some v \<Rightarrow> validate v)"

definition LineItem_fields ::
  "(json \<Rightarrow> pyfloat option) \<Rightarrow> (string \<times> json) list \<Rightarrow> LineItem option" where
  "LineItem_fields vf kw =
     (case field kw ''description'' None validate_str of
        None \<Rightarrow> None
      | Some d \<Rightarrow>
     (case field kw ''quantity'' (Some (Some (Finite 1))) (validate_optional_float vf) of
        None \<Rightarrow> None
      | Some q \<Rightarrow>
     (case field kw ''unit_price'' (Some None) (validate_optional_float vf) of
        None \<Rightarrow> None
      | Some u \<Rightarrow>
     (case field kw ''total'' (Some None) (validate_optional_float vf) of
        None \<Rightarrow> None
      | Some t \<Rightarrow>
          Some \<lparr>description = d, quantity = q, unit_price = u, total_field = t\<rparr>))))"

fun LineItem_init :: "(json \<Rightarrow> pyfloat option) \<Rightarrow> json \<Rightarrow> py_exception + LineItem" where
  \<comment> \<open>\<^verbatim>\<open>LineItem(**item)\<close>: the argument after \<^verbatim>\<open>**\<close> must be a mapping\<close>
  "LineItem_init vf (JDict kw) =
     (case LineItem_fields vf kw of None \<Rightarrow> Inl ValidationError | Some li \<Rightarrow> Inr li)"
| "LineItem_init vf _ = Inl TypeError"

fun py_iter :: "json \<Rightarrow> py_exception + json list" where
  \<comment> \<open>the values a \<^verbatim>\<open>for\<close> loop draws: a dict gives its keys, a str its characters\<close>
  "py_iter (JList xs) = Inr xs"
| "py_iter (JDict d) = Inr (map (\<lambda>kv. JStr (fst kv)) d)"
| "py_iter (JStr s) = Inr (map (\<lambda>c. JStr [c]) s)"
| "py_iter _ = Inl TypeError"

fun line_items_of ::
  "(json \<Rightarrow> pyfloat option) \<Rightarrow> json list \<Rightarrow> py_exception + LineItem list" where
  \<comment> \<open>the list comprehension: the first element that raises ends it\<close>
  "line_items_of vf [] = Inr []"
| "line_items_of vf (item # items) =
     (case LineItem_init vf item of
        Inl e \<Rightarrow> Inl e
      | Inr li \<Rightarrow>
          (case line_items_of vf items of
             Inl e \<Rightarrow> Inl e
           | Inr ls \<Rightarrow> Inr (li # ls)))"

definition ReceiptScanResult_init ::
  "json \<Rightarrow> json \<Rightarrow> pyfloat \<Rightarrow> json \<Rightarrow> json \<Rightarrow> json \<Rightarrow> json \<Rightarrow> LineItem list \<Rightarrow> pyfloat
     \<Rightarrow> py_exception + ReceiptScanResult" where
  "ReceiptScanResult_init v d a cu ca pm rn ls cs =
     (case validate_str v of None \<Rightarrow> Inl ValidationError | Some v' \<Rightarrow>
     (case validate_str d of None \<Rightarrow> Inl ValidationError | Some d' \<Rightarrow>
     (case validate_str cu of None \<Rightarrow> Inl ValidationError | Some cu' \<Rightarrow>
     (case validate_str ca of None \<Rightarrow> Inl ValidationError | Some ca' \<Rightarrow>
     (case validate_optional_str pm of None \<Rightarrow> Inl ValidationError | Some pm' \<Rightarrow>
     (case validate_optional_str rn of None \<Rightarrow> Inl ValidationError | Some rn' \<Rightarrow>
        Inr \<lparr>vendor = v', date = d', amount = a, currency = cu', category = ca',
             payment_method = pm', receipt_number = rn', line_items = ls,
             confidence_score = cs\<rparr>))))))"

subsection \<open>From the provider's text to the result\<close>

definition CATEGORIES :: "string list" where
  "CATEGORIES =
     [''Meals & Dining'', ''Travel'', ''Office Supplies'', ''Equipment'',
      ''Software & Subscriptions'', ''Utilities'', ''Marketing'', ''Professional Services'',
      ''Transportation'', ''Other'']"

definition dict_get :: "(string \<times> json) list \<Rightarrow> string \<Rightarrow> json \<Rightarrow> json" where
  \<comment> \<open>\<^verbatim>\<open>d.get(key, default)\<close>\<close>
  "dict_get d k dflt = (case map_of d k of None \<Rightarrow> dflt | Some v \<Rightarrow> v)"

definition line_items_value ::
  "(json \<Rightarrow> pyfloat option) \<Rightarrow> json \<Rightarrow> py_exception + LineItem list" where
  \<comment> \<open>\<^verbatim>\<open>[LineItem(**item) for item in v]\<close>\<close>
  "line_items_value vf v =
     (case py_iter v of
        Inl e \<Rightarrow> Inl e
      | Inr items \<Rightarrow> line_items_of vf items)"

definition line_items_arg ::
  "(json \<Rightarrow> pyfloat option) \<Rightarrow> (string \<times> json) list \<Rightarrow> py_exception + LineItem list" where
  \<comment> \<open>\<^verbatim>\<open>[LineItem(**item) for item in result.get("line_items", [])]\<close>\<close>
  "line_items_arg vf d = line_items_value vf (dict_get d ''line_items'' (JList []))"

fun build_result ::
  "(json \<Rightarrow> pyfloat option) \<Rightarrow> string \<Rightarrow> json \<Rightarrow> py_exception + ReceiptScanResult" where
  \<comment> \<open>the \<^verbatim>\<open>return ReceiptScanResult(...)\<close> statement; the keyword arguments are
      evaluated from left to right, then the model is validated. \<open>today\<close> is
      \<^verbatim>\<open>datetime.now().strftime("%Y-%m-%d")\<close>. Only a dict has \<^verbatim>\<open>get\<close>.\<close>
  "build_result vf today (JDict d) =
     (case py_float (dict_get d ''amount'' (JInt 0)) of
        Inl e \<Rightarrow> Inl e
      | Inr a \<Rightarrow>
     (case line_items_arg vf d of
        Inl e \<Rightarrow> Inl e
      | Inr ls \<Rightarrow>
     (case py_float (dict_get d ''confidence_score'' (JFloat (Finite (1 / 2)))) of
        Inl e \<Rightarrow> Inl e
      | Inr cs \<Rightarrow>
          ReceiptScanResult_init
            (dict_get d ''vendor'' (JStr ''Unknown''))
            (dict_get d ''date'' (JStr today))
            a
            (dict_get d ''currency'' (JStr ''USD''))
            (dict_get d ''category'' (JStr ''Other''))
            (dict_get d ''payment_method'' JNull)
            (dict_get d ''receipt_number'' JNull)
            ls
            cs)))"
| "build_result vf today _ = Inl AttributeError"

fun handler :: "py_exception \<Rightarrow> http_exception" where
  \<comment> \<open>the \<^verbatim>\<open>except\<close> clauses of the second \<^verbatim>\<open>try\<close> block\<close>
  "handler JSONDecodeError = HTTPException 500 Failed_to_parse_AI_response"
| "handler e = HTTPException 500 (Failed_to_scan_receipt e)"

definition loads_stripped ::
  "(string \<Rightarrow> py_exception + json) \<Rightarrow> string \<Rightarrow> py_exception + json" where
  \<comment> \<open>\<^verbatim>\<open>json.loads(response_text.strip())\<close>: the value, or the exception raised
      (JSONDecodeError for a text that is not JSON)\<close>
  "loads_stripped loads t = loads (py_strip t)"

definition parse_body ::
  "(string \<Rightarrow> py_exception + json) \<Rightarrow> (json \<Rightarrow> pyfloat option) \<Rightarrow> string \<Rightarrow> string
     \<Rightarrow> py_exception + ReceiptScanResult" where
  "parse_body loads vf today response_text =
     (case strip_fence response_text of
        Inl e \<Rightarrow> Inl e
      | Inr t \<Rightarrow>
          (case loads_stripped loads t of
             Inl e \<Rightarrow> Inl e
           | Inr result \<Rightarrow> build_result vf today result))"

definition parse_response ::
  "(string \<Rightarrow> py_exception + json) \<Rightarrow> (json \<Rightarrow> pyfloat option) \<Rightarrow> string \<Rightarrow> string
     \<Rightarrow> http_exception + ReceiptScanResult" where
  "parse_response loads vf today response_text =
     (case parse_body loads vf today response_text of
        Inl e \<Rightarrow> Inl (handler e)
      | Inr r \<Rightarrow> Inr r)"

section \<open>Sample inputs\<close>

text \<open>
  Concrete uploads, a concrete image library, and provider texts with the value that
  \<^verbatim>\<open>json.loads\<close> returns for each of them, for the instances below.
\<close>

definition sample_png :: upload_file where
  "sample_png = \<lparr>content_type = Some ''text/plain'',
                  content = [0x89, 0x50, 0x4E, 0x47, 0x0D, 0x0A, 0x1A, 0x0A, 0x00]\<rparr>"

definition sample_jpeg :: upload_file where
  "sample_jpeg = \<lparr>content_type = Some ''image/png'', content = [0xFF, 0xD8, 0xFF, 0xE0]\<rparr>"

definition sample_webp :: upload_file where
  "sample_webp = \<lparr>content_type = None,
                   content = [0x52, 0x49, 0x46, 0x46, 0x24, 0x00, 0x00, 0x00,
                              0x57, 0x45, 0x42, 0x50, 0x56, 0x50]\<rparr>"

definition sample_pdf :: upload_file where
  "sample_pdf = \<lparr>content_type = Some ''image/jpeg'',
                  content = [0x25, 0x50, 0x44, 0x46, 0x2D, 0x31, 0x2E, 0x34]\<rparr>"

definition sample_gif :: upload_file where
  "sample_gif = \<lparr>content_type = Some ''image/gif'',
                  content = [0x47, 0x49, 0x46, 0x38, 0x39, 0x61]\<rparr>"

definition sample_pil :: "unit pil" where
  \<comment> \<open>opens any non-empty upload as a 2147 by 1000 RGBA image; the encoder's output has
      4000000 bytes at quality 85 and 2000000 bytes below\<close>
  "sample_pil =
     \<lparr>pil_open = (\<lambda>c. if c = [] then Inl UnidentifiedImageError
                       else Inr \<lparr>width = 2147, height = 1000, mode = ''RGBA'', pixels = ()\<rparr>),
      pil_convert_rgb = (\<lambda>p. p),
      pil_lanczos = (\<lambda>img sz. ()),
      pil_save_jpeg = (\<lambda>img q. Inr (replicate (if q = 85 then 4000000 else 2000000) 0))\<rparr>"

definition text_confidence_low :: string where
  \<open>text_confidence_low = ''{"confidence_score": -1}''\<close>

definition text_confidence_high :: string where
  \<open>text_confidence_high = ''{"confidence_score": 2.5}''\<close>

definition text_groceries :: string where
  \<open>text_groceries = ''{"category": "Groceries"}''\<close>

definition text_travel :: string where
  \<open>text_travel = ''{"category": "Travel"}''\<close>

definition text_bad_item :: string where
  \<open>text_bad_item = ''{"line_items": [{"description": "Coffee"}, {"quantity": 2}]}''\<close>

definition text_amount_word :: string where
  \<open>text_amount_word = ''{"amount": "abc"}''\<close>

definition text_amount_numeral :: string where
  \<open>text_amount_numeral = ''{"amount": "12.50"}''\<close>

definition text_plain_keys :: string where
  \<open>text_plain_keys = ''{"vendor": "X", "line_items": [{"description": "a"}]}''\<close>

definition text_extra_keys :: string where
  \<open>text_extra_keys =
     ''{"vendor": "X", "note": 1, "line_items": [{"description": "a", "sku": "z"}]}''\<close>

definition text_null_items :: string where
  \<open>text_null_items = ''{"line_items": null}''\<close>

definition text_not_json :: string where
  "text_not_json = ''not json''"

definition text_fenced :: string where
  \<open>text_fenced = ''```json\<newline>{}\<newline>```''\<close>

definition sample_values :: "(string \<times> json) list" where
  "sample_values =
       [(''{}'', JDict []),
        (text_confidence_low, JDict [(''confidence_score'', JInt (- 1))]),
        (text_confidence_high, JDict [(''confidence_score'', JFloat (Finite (5 / 2)))]),
        (text_groceries, JDict [(''category'', JStr ''Groceries'')]),
        (text_travel, JDict [(''category'', JStr ''Travel'')]),
        (text_bad_item,
           JDict [(''line_items'',
                   JList [JDict [(''description'', JStr ''Coffee'')],
                          JDict [(''quantity'', JInt 2)]])]),
        (text_amount_word, JDict [(''amount'', JStr ''abc'')]),
        (text_amount_numeral, JDict [(''amount'', JStr ''12.50'')]),
        (text_plain_keys,
           JDict [(''vendor'', JStr ''X''),
                  (''line_items'', JList [JDict [(''description'', JStr ''a'')]])]),
        (text_extra_keys,
           JDict [(''vendor'', JStr ''X''), (''note'', JInt 1),
                  (''line_items'',
                   JList [JDict [(''description'', JStr ''a''), (''sku'', JStr ''z'')]])]),
        (text_null_items, JDict [(''line_items'', JNull)])]"

definition sample_loads :: "string \<Rightarrow> py_exception + json" where
  \<comment> \<open>\<^verbatim>\<open>json.loads\<close> on the sample texts; the other texts used below are not JSON\<close>
  "sample_loads t =
     (case map_of sample_values t of None \<Rightarrow> Inl JSONDecodeError | Some v \<Rightarrow> Inr v)"

fun sample_float :: "json \<Rightarrow> pyfloat option" where
  \<comment> \<open>a validation of float fields for the instances: it takes a float and an int that
      fits a double, as pydantic does, and refuses everything else\<close>
  "sample_float (JFloat x) = Some x"
| "sample_float (JInt n) = (case float_of_int n of Inl e \<Rightarrow> None | Inr x \<Rightarrow> Some x)"
| "sample_float _ = None"

definition sample_today :: string where
  "sample_today = ''2026-11-04''"

section \<open>Predicates of the claims\<close>

text \<open>
  What the properties below speak of: a score within \<open>[0, 1]\<close>, a value that the
  conversion of its field takes, an element that is not a line item, a text inside a
  fence, and two objects that differ only outside the schema.
\<close>

definition in_unit_interval :: "pyfloat \<Rightarrow> bool" where
  "in_unit_interval x = (case x of Finite q \<Rightarrow> 0 \<le> q \<and> q \<le> 1 | _ \<Rightarrow> False)"

definition field_accepts :: "(json \<Rightarrow> pyfloat option) \<Rightarrow> string \<Rightarrow> json \<Rightarrow> bool" where
  \<comment> \<open>the conversion that the handler and the model class apply to a field takes the
      value; a key outside the schema is never converted\<close>
  "field_accepts vf k v =
     (if k = ''amount'' \<or> k = ''confidence_score'' then \<not> isl (py_float v)
      else if k = ''vendor'' \<or> k = ''date'' \<or> k = ''currency'' \<or> k = ''category''
        then validate_str v \<noteq> None
      else if k = ''payment_method'' \<or> k = ''receipt_number''
        then validate_optional_str v \<noteq> None
      else if k = ''line_items'' then \<not> isl (line_items_value vf v)
      else True)"

fun float_refused :: "(json \<Rightarrow> pyfloat option) \<Rightarrow> json option \<Rightarrow> bool" where
  \<comment> \<open>an optional float field is given a value that is neither null nor taken as a float\<close>
  "float_refused vf None = False"
| "float_refused vf (Some JNull) = False"
| "float_refused vf (Some v) = (vf v = None)"

definition malformed_item :: "(json \<Rightarrow> pyfloat option) \<Rightarrow> json \<Rightarrow> bool" where
  \<comment> \<open>the element does not have the shape of the class \<^verbatim>\<open>LineItem\<close>: it is not an
      object, or it has no description that is a str, or one of its three optional
      numbers is refused\<close>
  "malformed_item vf item =
     (case item of
        JDict kw \<Rightarrow>
          (case map_of kw ''description'' of Some (JStr s) \<Rightarrow> False | _ \<Rightarrow> True) \<or>
          float_refused vf (map_of kw ''quantity'') \<or>
          float_refused vf (map_of kw ''unit_price'') \<or>
          float_refused vf (map_of kw ''total'')
      | _ \<Rightarrow> True)"

definition parse_failure :: http_exception where
  \<comment> \<open>what the handler raises for a response that \<^verbatim>\<open>json.loads\<close> cannot parse, the one
      failure it sets apart for a malformed response\<close>
  "parse_failure = HTTPException 500 Failed_to_parse_AI_response"

text \<open>A text inside one level of Markdown fencing, with and without the language tag.\<close>

definition wrap_json :: "string \<Rightarrow> string" where
  "wrap_json t = fence_json @ ''\<newline>'' @ t @ ''\<newline>'' @ fence"

definition wrap_plain :: "string \<Rightarrow> string" where
  "wrap_plain t = fence @ ''\<newline>'' @ t @ ''\<newline>'' @ fence"

definition scalar_keys :: "string list" where
  "scalar_keys =
     [''vendor'', ''date'', ''amount'', ''currency'', ''category'', ''payment_method'',
      ''receipt_number'', ''confidence_score'']"

definition item_keys :: "string list" where
  "item_keys = [''description'', ''quantity'', ''unit_price'', ''total'']"

fun items_agree :: "json \<Rightarrow> json \<Rightarrow> bool" where
  \<comment> \<open>two elements of \<^verbatim>\<open>line_items\<close> agree on the four fields of a line item\<close>
  "items_agree (JDict a) (JDict b) = (\<forall>k \<in> set item_keys. map_of a k = map_of b k)"
| "items_agree x y = (x = y)"

fun line_items_agree :: "json option \<Rightarrow> json option \<Rightarrow> bool" where
  "line_items_agree (Some (JList xs)) (Some (JList ys)) = list_all2 items_agree xs ys"
| "line_items_agree x y = (x = y)"

definition objects_agree :: "(string \<times> json) list \<Rightarrow> (string \<times> json) list \<Rightarrow> bool" where
  \<comment> \<open>two objects agree on the nine fields of the schema\<close>
  "objects_agree a b =
     ((\<forall>k \<in> set scalar_keys. map_of a k = map_of b k) \<and>
      line_items_agree (map_of a ''line_items'') (map_of b ''line_items''))"

section \<open>Format detection\<close>

lemma sig_heads:
  "take 8 c = png_signature \<Longrightarrow> take 1 c = [0x89]"
  "take 2 c = jpeg_signature \<Longrightarrow> take 1 c = [0xFF]"
  "take 4 c = riff_marker \<Longrightarrow> take 1 c = [0x52]"
  "take 4 c = pdf_signature \<Longrightarrow> take 1 c = [0x25]"
proof -
  have t: "\<And>n. 0 < n \<Longrightarrow> take 1 (take n c) = take 1 c" by (simp add: min_def)
  show "take 8 c = png_signature \<Longrightarrow> take 1 c = [0x89]"
    using t [of 8] by (simp add: png_signature_def)
  show "take 2 c = jpeg_signature \<Longrightarrow> take 1 c = [0xFF]"
    using t [of 2] by (simp add: jpeg_signature_def)
  show "take 4 c = riff_marker \<Longrightarrow> take 1 c = [0x52]"
    using t [of 4] by (simp add: riff_marker_def)
  show "take 4 c = pdf_signature \<Longrightarrow> take 1 c = [0x25]"
    using t [of 4] by (simp add: pdf_signature_def)
qed

lemma detect_png: "take 8 c = png_signature \<Longrightarrow> detect_type c = ''image/png''"
  by (simp add: detect_type_def)

lemma detect_jpeg: "take 2 c = jpeg_signature \<Longrightarrow> detect_type c = ''image/jpeg''"
  using sig_heads(1) [of c] sig_heads(2) [of c]
  by (auto simp: detect_type_def)

lemma detect_webp:
  "take 4 c = riff_marker \<Longrightarrow> take 4 (drop 8 c) = webp_marker \<Longrightarrow> detect_type c = ''image/webp''"
  using sig_heads(1) [of c] sig_heads(2) [of c] sig_heads(3) [of c]
  by (auto simp: detect_type_def)

lemma detect_pdf: "take 4 c = pdf_signature \<Longrightarrow> detect_type c = ''application/pdf''"
  using sig_heads [of c]
  by (auto simp: detect_type_def)

lemma detect_default:
  "take 8 c \<noteq> png_signature \<Longrightarrow> take 2 c \<noteq> jpeg_signature \<Longrightarrow>
   \<not> (take 4 c = riff_marker \<and> take 4 (drop 8 c) = webp_marker) \<Longrightarrow>
   take 4 c \<noteq> pdf_signature \<Longrightarrow> detect_type c = ''image/jpeg''"
  by (auto simp: detect_type_def)

lemma normalize_pdf:
  "take 4 (content file) = pdf_signature \<Longrightarrow>
   normalize_image P file = Inl (HTTPException 400 PDF_files_are_not_yet_supported)"
  by (simp add: normalize_image_def detect_pdf)

lemma normalize_ignores_content_type:
  "normalize_image P (file\<lparr>content_type := ct\<rparr>) = normalize_image P file"
  by (simp add: normalize_image_def)

text \<open>
  Claim C6. The type is detected from the first bytes alone: the PNG signature gives
  \<^verbatim>\<open>image/png\<close>, the JPEG signature \<^verbatim>\<open>image/jpeg\<close>, the RIFF and WEBP markers
  \<^verbatim>\<open>image/webp\<close>; an upload that starts with \<^verbatim>\<open>%PDF\<close> is refused with status 400
  and the message that PDF files are not supported; any other upload is taken for a
  JPEG. The content type the client claims changes nothing.
\<close>

theorem detect_type_by_signature:
  "(take 8 (content file) = png_signature \<longrightarrow> detect_type (content file) = ''image/png'') \<and>
   (take 2 (content file) = jpeg_signature \<longrightarrow> detect_type (content file) = ''image/jpeg'') \<and>
   (take 4 (content file) = riff_marker \<and> take 4 (drop 8 (content file)) = webp_marker \<longrightarrow>
      detect_type (content file) = ''image/webp'') \<and>
   (take 4 (content file) = pdf_signature \<longrightarrow>
      normalize_image P file = Inl (HTTPException 400 PDF_files_are_not_yet_supported)) \<and>
   (take 8 (content file) \<noteq> png_signature \<and> take 2 (content file) \<noteq> jpeg_signature \<and>
    \<not> (take 4 (content file) = riff_marker \<and> take 4 (drop 8 (content file)) = webp_marker) \<and>
    take 4 (content file) \<noteq> pdf_signature \<longrightarrow>
      detect_type (content file) = ''image/jpeg'') \<and>
   normalize_image P (file\<lparr>content_type := claimed\<rparr>) = normalize_image P file"
  by (intro conjI impI)
    (simp_all add: detect_png detect_jpeg detect_webp detect_default normalize_pdf
      normalize_ignores_content_type)

theorem detect_type_by_signature_witness:
  "detect_type (content sample_png) = ''image/png'' \<and>
   detect_type (content sample_jpeg) = ''image/jpeg'' \<and>
   detect_type (content sample_webp) = ''image/webp'' \<and>
   normalize_image sample_pil sample_pdf = Inl (HTTPException 400 PDF_files_are_not_yet_supported) \<and>
   detect_type (content sample_gif) = ''image/jpeg'' \<and>
   normalize_image sample_pil (sample_gif\<lparr>content_type := Some ''image/png''\<rparr>) =
     normalize_image sample_pil sample_gif"
proof -
  have png: "detect_type (content sample_png) = ''image/png''"
    using detect_type_by_signature [of sample_png sample_pil None]
    by (simp add: sample_png_def png_signature_def)
  have jpeg: "detect_type (content sample_jpeg) = ''image/jpeg''"
    using detect_type_by_signature [of sample_jpeg sample_pil None]
    by (simp add: sample_jpeg_def jpeg_signature_def)
  have webp: "detect_type (content sample_webp) = ''image/webp''"
    using detect_type_by_signature [of sample_webp sample_pil None]
    by (simp add: sample_webp_def riff_marker_def webp_marker_def)
  have pdf: "normalize_image sample_pil sample_pdf =
      Inl (HTTPException 400 PDF_files_are_not_yet_supported)"
    using detect_type_by_signature [of sample_pdf sample_pil None]
    by (simp add: sample_pdf_def pdf_signature_def)
  have gif: "take 8 (content sample_gif) \<noteq> png_signature \<and>
      take 2 (content sample_gif) \<noteq> jpeg_signature \<and>
      \<not> (take 4 (content sample_gif) = riff_marker \<and>
           take 4 (drop 8 (content sample_gif)) = webp_marker) \<and>
      take 4 (content sample_gif) \<noteq> pdf_signature"
    by (simp add: sample_gif_def png_signature_def jpeg_signature_def riff_marker_def
        pdf_signature_def)
  from gif have dflt: "detect_type (content sample_gif) = ''image/jpeg''"
    using detect_type_by_signature [of sample_gif sample_pil None] by blast
  have ct: "normalize_image sample_pil (sample_gif\<lparr>content_type := Some ''image/png''\<rparr>) =
      normalize_image sample_pil sample_gif"
    using detect_type_by_signature [of sample_gif sample_pil "Some ''image/png''"] by blast
  from png jpeg webp pdf dflt ct show ?thesis by blast
qed

section \<open>The float operations\<close>

lemma floor_numeral_quotient: "\<lfloor>numeral a / numeral b :: rat\<rfloor> = numeral a div numeral b"
  using floor_divide_of_int_eq [of "numeral a" "numeral b", where ?'a = rat] by simp

lemma ceiling_numeral_quotient:
  "\<lceil>numeral a / numeral b :: rat\<rceil> = - ((- numeral a) div numeral b)"
  using ceiling_divide_eq_div [of "numeral a" "numeral b", where ?'a = rat] by simp

lemmas float_eval =
  round_double_def overflow_check_def scale_round_def floor_log2_def bit_length.simps pow2_def
  round_half_even_def Let_def floor_numeral_quotient ceiling_numeral_quotient
  float_of_int_def int_truediv_def int_mul_float_def py_min_def

lemma bit_length_bounds:
  "0 < n \<Longrightarrow> 2 ^ (bit_length n - 1) \<le> n \<and> n < 2 ^ bit_length n"
proof (induction n rule: bit_length.induct)
  case (1 n)
  show ?case
  proof (cases "n div 2 = 0")
    case True
    with "1.prems" have "n = 1" by presburger
    then show ?thesis by (simp add: bit_length.simps)
  next
    case False
    then have pos: "0 < n div 2" by simp
    from "1.IH" [OF _ pos] "1.prems"
    have ih: "2 ^ (bit_length (n div 2) - 1) \<le> n div 2" "n div 2 < 2 ^ bit_length (n div 2)"
      by auto
    have bl: "bit_length n = Suc (bit_length (n div 2))"
      using "1.prems" by (subst bit_length.simps) simp
    have blpos: "0 < bit_length (n div 2)"
      using pos by (subst bit_length.simps) simp
    then have "(2::nat) ^ bit_length (n div 2) = 2 * 2 ^ (bit_length (n div 2) - 1)"
      by (cases "bit_length (n div 2)") auto
    with ih have "2 ^ bit_length (n div 2) \<le> n" by presburger
    moreover from ih(2) have "n < 2 * 2 ^ bit_length (n div 2)" by presburger
    ultimately show ?thesis by (simp add: bl)
  qed
qed

lemma round_half_even_of_int: "round_half_even (of_int k) = k"
  by (simp add: round_half_even_def)

lemma float_of_nat_exact:
  assumes "0 < k" and "k \<le> 2 ^ 53"
  shows "overflow_check pos (scale_round (of_nat k) (pow2 (max (floor_log2 (of_nat k)) (- 1022) - 52)))
    = Finite (if pos then of_nat k else - of_nat k)"
proof -
  let ?b = "bit_length k"
  from bit_length_bounds [OF assms(1)] have lo: "2 ^ (?b - 1) \<le> k" and hi: "k < 2 ^ ?b"
    by auto
  have bpos: "0 < ?b" using assms(1) by (subst bit_length.simps) simp
  from lo assms(2) have "(2::nat) ^ (?b - 1) \<le> 2 ^ 53" by linarith
  then have b54: "?b - 1 \<le> 53"
    by (rule power_le_imp_le_exp [rotated]) simp
  have fl: "floor_log2 (of_nat k) = int ?b - 1"
    using assms(1) by (simp add: floor_log2_def)
  have mx: "max (floor_log2 (of_nat k)) (- 1022) - 52 = int ?b - 53"
    using bpos by (simp add: fl)
  have sr: "scale_round (of_nat k) (pow2 (int ?b - 53)) = of_nat k"
  proof (cases "?b \<le> 53")
    case True
    then have p: "pow2 (int ?b - 53) = 1 / 2 ^ (53 - ?b)"
      by (auto simp: pow2_def nat_diff_distrib')
    have "(of_nat k :: rat) / (1 / 2 ^ (53 - ?b)) = of_int (int k * 2 ^ (53 - ?b))"
      by simp
    then have "round_half_even (of_nat k / (1 / 2 ^ (53 - ?b))) = int k * 2 ^ (53 - ?b)"
      using round_half_even_of_int by metis
    then show ?thesis by (simp add: scale_round_def p)
  next
    case False
    with b54 have b: "?b = 54" by simp
    with lo assms(2) have k: "k = 2 ^ 53" by simp
    have p: "pow2 (int ?b - 53) = 2" by (simp add: b pow2_def)
    have "(of_nat k :: rat) / 2 = of_int (2 ^ 52)" by (simp add: k)
    then have r: "round_half_even (of_nat k / 2) = 2 ^ 52"
      using round_half_even_of_int by metis
    have "rat_of_int (2 ^ 52) * 2 = of_nat k" by (simp add: k)
    then show ?thesis unfolding scale_round_def p r .
  qed
  have "(of_nat k :: rat) \<le> 2 ^ 53"
    using assms(2) by (metis of_nat_le_iff of_nat_numeral of_nat_power)
  also have "\<dots> < (2::rat) ^ 1024" by simp
  finally have "\<not> (2::rat) ^ 1024 \<le> of_nat k" by simp
  then show ?thesis
    unfolding mx sr by (simp add: overflow_check_def)
qed

lemma float_of_int_exact:
  assumes "\<bar>n\<bar> \<le> 2 ^ 53"
  shows "float_of_int n = Inr (Finite (of_int n))"
proof (cases "n = 0")
  case True
  then show ?thesis by (simp add: float_of_int_def round_double_def)
next
  case False
  define k where "k = nat \<bar>n\<bar>"
  have k: "0 < k" "k \<le> 2 ^ 53" "\<bar>of_int n :: rat\<bar> = of_nat k"
    using False assms by (auto simp: k_def nat_le_iff)
  have "round_double (of_int n) = Finite (if 0 < n then of_nat k else - of_nat k)"
    using False float_of_nat_exact [OF k(1,2), of "0 < n"]
    by (simp add: round_double_def k(3))
  also have "(if 0 < n then of_nat k else - of_nat k :: rat) = of_int n"
    using False by (auto simp: k_def)
  finally show ?thesis by (simp add: float_of_int_def)
qed

text \<open>
  The rounding is to the nearest multiple of the spacing at the exponent of the argument:
  \<open>floor_log2\<close> finds that exponent, and the result is at most half a spacing away.
\<close>

lemma bit_length_pos: "0 < n \<Longrightarrow> 0 < bit_length n"
  by (subst bit_length.simps) simp

lemma floor_log2_bounds:
  assumes "0 < x"
  shows "pow2 (floor_log2 x) \<le> x \<and> x < pow2 (floor_log2 x + 1)"
proof (cases "1 \<le> x")
  case True
  define n where "n = nat \<lfloor>x\<rfloor>"
  have n: "0 < n" "of_nat n \<le> x" "x < of_nat n + 1"
    using True by (auto simp: n_def le_floor_iff) linarith+
  let ?b = "bit_length n"
  from bit_length_bounds [OF n(1)] have lo: "2 ^ (?b - 1) \<le> n" and hi: "n < 2 ^ ?b"
    by auto
  have bpos: "0 < ?b" using n(1) by (rule bit_length_pos)
  have fl: "floor_log2 x = int ?b - 1"
    using True by (simp add: floor_log2_def n_def)
  have p1: "pow2 (int ?b - 1) = 2 ^ (?b - 1)"
    using bpos by (simp add: pow2_def nat_diff_distrib')
  have p2: "pow2 (int ?b - 1 + 1) = 2 ^ ?b"
    by (simp add: pow2_def)
  from lo have "(of_nat (2 ^ (?b - 1)) :: rat) \<le> of_nat n"
    by (simp only: of_nat_le_iff)
  then have "(2::rat) ^ (?b - 1) \<le> of_nat n" by simp
  with n(2) have a: "pow2 (floor_log2 x) \<le> x"
    unfolding fl p1 by linarith
  from hi have "n + 1 \<le> 2 ^ ?b" by simp
  then have "(of_nat (n + 1) :: rat) \<le> of_nat (2 ^ ?b)"
    by (simp only: of_nat_le_iff)
  then have "(of_nat n :: rat) + 1 \<le> 2 ^ ?b" by simp
  with n(3) have b: "x < pow2 (floor_log2 x + 1)"
    unfolding fl p2 by linarith
  from a b show ?thesis ..
next
  case False
  define c where "c = \<lceil>1 / x\<rceil>"
  define m where "m = nat (c - 1)"
  from False assms have inv: "1 < 1 / x" by simp
  then have c2: "2 \<le> c" unfolding c_def by linarith
  have cb: "1 / x \<le> of_int c" "of_int c - 1 < 1 / x"
    unfolding c_def by linarith+
  have m: "0 < m" "int m = c - 1" using c2 by (auto simp: m_def)
  let ?k = "bit_length m"
  from bit_length_bounds [OF m(1)] have lo: "2 ^ (?k - 1) \<le> m" and hi: "m < 2 ^ ?k"
    by auto
  have kpos: "0 < ?k" using m(1) by (rule bit_length_pos)
  have fl: "floor_log2 x = - int ?k"
    using False by (simp add: floor_log2_def m_def c_def)
  have p1: "pow2 (- int ?k) = 1 / 2 ^ ?k"
    using kpos by (simp add: pow2_def)
  have p2: "pow2 (- int ?k + 1) = 1 / 2 ^ (?k - 1)"
  proof -
    from kpos obtain j where j: "?k = Suc j" by (cases ?k) auto
    have "- int (Suc j) + 1 = - int j" by simp
    then have "pow2 (- int (Suc j) + 1) = 1 / 2 ^ j"
      by (simp only: pow2_def) simp
    then show ?thesis by (simp add: j)
  qed
  have "(of_int (int m) :: rat) = of_int (c - 1)"
    by (simp only: m(2))
  then have mr: "(of_nat m :: rat) = of_int c - 1" by simp
  from hi have "m + 1 \<le> 2 ^ ?k" by simp
  then have "(of_nat (m + 1) :: rat) \<le> of_nat (2 ^ ?k)"
    by (simp only: of_nat_le_iff)
  then have "(of_nat m :: rat) + 1 \<le> 2 ^ ?k" by simp
  with cb(1) mr have "1 / x \<le> 2 ^ ?k" by linarith
  with assms have a: "1 / 2 ^ ?k \<le> x"
    by (simp add: field_simps)
  from lo have "(of_nat (2 ^ (?k - 1)) :: rat) \<le> of_nat m"
    by (simp only: of_nat_le_iff)
  then have "(2::rat) ^ (?k - 1) \<le> of_nat m" by simp
  with cb(2) mr have "2 ^ (?k - 1) < 1 / x" by linarith
  with assms have b: "x < 1 / 2 ^ (?k - 1)"
    by (simp add: field_simps)
  from a b show ?thesis unfolding fl p1 p2 ..
qed

lemma round_half_even_error: "\<bar>of_int (round_half_even q) - q\<bar> \<le> 1 / 2"
proof -
  have "of_int \<lfloor>q\<rfloor> \<le> q" "q < of_int \<lfloor>q\<rfloor> + 1"
    by linarith+
  then show ?thesis
    unfolding round_half_even_def Let_def by (auto simp: abs_le_iff)
qed

lemma scale_round_error:
  assumes "0 < ulp"
  shows "\<bar>scale_round a ulp - a\<bar> \<le> ulp / 2"
proof -
  have "scale_round a ulp - a = (of_int (round_half_even (a / ulp)) - a / ulp) * ulp"
    using assms by (simp add: scale_round_def field_simps)
  then have "\<bar>scale_round a ulp - a\<bar> = \<bar>of_int (round_half_even (a / ulp)) - a / ulp\<bar> * ulp"
    using assms by (simp add: abs_mult)
  also have "\<dots> \<le> 1 / 2 * ulp"
    using assms round_half_even_error [of "a / ulp"] by (intro mult_right_mono) simp_all
  finally show ?thesis by simp
qed

lemma round_double_tenth:
  "round_double (1 / 10) = Finite (3602879701896397 / 36028797018963968)"
  by (simp add: float_eval)

lemma new_size_2147_1000: "new_size 2147 1000 = Inr (1499, 698)"
  by (simp add: new_size_def scale_ratio_def scaled_def max_dimension_def float_eval)

section \<open>Re-encoding\<close>

lemma encode_jpeg_result:
  assumes "encode_jpeg P img = Inr n"
  shows "out_type n = ''image/jpeg'' \<and> out_image n = img \<and>
    ((encodes n = [85] \<and> pil_save_jpeg P img 85 = Inr (out_content n) \<and>
        length (out_content n) \<le> size_ceiling) \<or>
     (encodes n = [85, 50] \<and> pil_save_jpeg P img 50 = Inr (out_content n) \<and>
        (\<exists>c85. pil_save_jpeg P img 85 = Inr c85 \<and> size_ceiling < length c85)))"
  using assms
  by (auto simp: encode_jpeg_def save_jpeg_def split: sum.splits if_splits)

lemma normalize_image_encode:
  assumes "normalize_image P file = Inr n"
  shows "encode_jpeg P (out_image n) = Inr n"
proof -
  from assms obtain img where "encode_jpeg P img = Inr n"
    by (auto simp: normalize_image_def process_image_def Let_def split: sum.splits if_splits)
  moreover from this have "out_image n = img"
    using encode_jpeg_result by blast
  ultimately show ?thesis by simp
qed

lemma normalize_sample_gif:
  "normalize_image sample_pil sample_gif =
     Inr \<lparr>out_content = replicate 2000000 0, out_type = ''image/jpeg'',
          out_image = \<lparr>width = 1499, height = 698, mode = ''RGB'', pixels = ()\<rparr>,
          encodes = [85, 50]\<rparr>"
  by (simp add: normalize_image_def process_image_def sample_pil_def sample_gif_def
      detect_type_def png_signature_def jpeg_signature_def riff_marker_def pdf_signature_def
      to_rgb_def downscale_def max_dimension_def new_size_2147_1000 pil_resize_def
      encode_jpeg_def save_jpeg_def size_ceiling_def)

text \<open>
  Claim C7. Whenever the normalisation succeeds, the content is typed \<^verbatim>\<open>image/jpeg\<close>
  and one of two things happened: the encoder was called once, at quality 85, and its
  output, of at most 3 * 1024 * 1024 bytes, is the content; or that output was larger,
  the encoder was called a second and last time at quality 50, and the second output is
  the content whatever its size.
\<close>

theorem normalized_two_attempts:
  assumes "normalize_image P file = Inr n"
  shows "out_type n = ''image/jpeg'' \<and>
    ((encodes n = [85] \<and> pil_save_jpeg P (out_image n) 85 = Inr (out_content n) \<and>
        length (out_content n) \<le> 3 * 1024 * 1024) \<or>
     (encodes n = [85, 50] \<and> pil_save_jpeg P (out_image n) 50 = Inr (out_content n) \<and>
        (\<exists>c85. pil_save_jpeg P (out_image n) 85 = Inr c85 \<and> 3 * 1024 * 1024 < length c85)))"
  using encode_jpeg_result [OF normalize_image_encode [OF assms]]
  by (simp add: size_ceiling_def)

text \<open>
  An instance: the sample library encodes to 4000000 bytes at quality 85, so the sample
  upload is encoded twice and the 2000000 bytes of the second call are the content.
\<close>

theorem normalized_two_attempts_witness:
  "normalize_image sample_pil sample_gif =
     Inr \<lparr>out_content = replicate 2000000 0, out_type = ''image/jpeg'',
          out_image = \<lparr>width = 1499, height = 698, mode = ''RGB'', pixels = ()\<rparr>,
          encodes = [85, 50]\<rparr> \<and>
   pil_save_jpeg sample_pil \<lparr>width = 1499, height = 698, mode = ''RGB'', pixels = ()\<rparr> 50 =
     Inr (replicate 2000000 0)"
  using normalized_two_attempts [OF normalize_sample_gif] normalize_sample_gif
  by simp

section \<open>Resizing\<close>

text \<open>
  Claim C8. An image of 2147 by 1000 pixels is wider than 1500 pixels, and the handler
  resizes it to 1499 by 698: the quotient \<^verbatim>\<open>1500 / 2147\<close> is rounded down to a double,
  the product with 2147 is the double just below 1500, and \<^verbatim>\<open>int\<close> truncates it. The
  larger side of the result is 1499, not 1500.
\<close>

theorem downscale_2147_by_1000:
  "downscale P \<lparr>width = 2147, height = 1000, mode = ''RGB'', pixels = p\<rparr> =
     Inr \<lparr>width = 1499, height = 698, mode = ''RGB'',
          pixels = pil_lanczos P \<lparr>width = 2147, height = 1000, mode = ''RGB'', pixels = p\<rparr>
                     (1499, 698)\<rparr>"
  by (simp add: downscale_def max_dimension_def new_size_2147_1000 pil_resize_def)

section \<open>The parser: general facts\<close>

declare build_result.simps [simp del]

lemma validate_str_Some: "validate_str v = Some s \<longleftrightarrow> v = JStr s"
  by (cases v) auto

lemma dict_get_present: "map_of d k = Some v \<Longrightarrow> dict_get d k dflt = v"
  by (simp add: dict_get_def)

lemma dict_get_missing: "map_of d k = None \<Longrightarrow> dict_get d k dflt = dflt"
  by (simp add: dict_get_def)

lemma build_result_Inr:
  assumes "build_result vf today (JDict d) = Inr r"
  shows "py_float (dict_get d ''amount'' (JInt 0)) = Inr (amount r) \<and>
     line_items_arg vf d = Inr (line_items r) \<and>
     py_float (dict_get d ''confidence_score'' (JFloat (Finite (1 / 2)))) =
       Inr (confidence_score r) \<and>
     dict_get d ''vendor'' (JStr ''Unknown'') = JStr (vendor r) \<and>
     dict_get d ''date'' (JStr today) = JStr (date r) \<and>
     dict_get d ''currency'' (JStr ''USD'') = JStr (currency r) \<and>
     dict_get d ''category'' (JStr ''Other'') = JStr (category r) \<and>
     validate_optional_str (dict_get d ''payment_method'' JNull) = Some (payment_method r) \<and>
     validate_optional_str (dict_get d ''receipt_number'' JNull) = Some (receipt_number r)"
  using assms
  by (auto simp: build_result.simps ReceiptScanResult_init_def validate_str_Some
      split: sum.splits option.splits)

lemma float_of_str_exn: "float_of_str s = Inl e \<Longrightarrow> e = ValueError"
  by (auto simp: float_of_str_def parse_unsigned_def split: option.splits if_splits)

lemma float_of_int_exn: "float_of_int n = Inl e \<Longrightarrow> e = OverflowError"
  by (auto simp: float_of_int_def split: pyfloat.splits)

lemma py_float_exn: "py_float v = Inl e \<Longrightarrow> e \<noteq> JSONDecodeError"
  by (cases v) (auto dest: float_of_str_exn float_of_int_exn)

lemma LineItem_init_exn: "LineItem_init vf v = Inl e \<Longrightarrow> e \<noteq> JSONDecodeError"
  by (cases v) (auto split: option.splits)

lemma line_items_of_exn: "line_items_of vf xs = Inl e \<Longrightarrow> e \<noteq> JSONDecodeError"
  by (induction xs) (auto split: sum.splits dest: LineItem_init_exn)

lemma py_iter_exn: "py_iter v = Inl e \<Longrightarrow> e = TypeError"
  by (cases v) auto

lemma line_items_arg_exn: "line_items_arg vf d = Inl e \<Longrightarrow> e \<noteq> JSONDecodeError"
  by (auto simp: line_items_arg_def line_items_value_def split: sum.splits
      dest: line_items_of_exn py_iter_exn)

lemma ReceiptScanResult_init_exn:
  "ReceiptScanResult_init v d a cu ca pm rn ls cs = Inl e \<Longrightarrow> e = ValidationError"
  by (auto simp: ReceiptScanResult_init_def split: option.splits)

lemma build_result_exn: "build_result vf today j = Inl e \<Longrightarrow> e \<noteq> JSONDecodeError"
  by (cases j)
    (auto simp: build_result.simps split: sum.splits
      dest: py_float_exn line_items_arg_exn ReceiptScanResult_init_exn)

lemma handler_other:
  "e \<noteq> JSONDecodeError \<Longrightarrow> handler e = HTTPException 500 (Failed_to_scan_receipt e)"
  by (cases e) auto

lemma parse_response_loaded:
  assumes "strip_fence text = Inr t" and "loads (py_strip t) = Inr j"
  shows "parse_response loads vf today text =
    (case build_result vf today j of
       Inl e \<Rightarrow> Inl (HTTPException 500 (Failed_to_scan_receipt e))
     | Inr r \<Rightarrow> Inr r)"
  using assms
  by (auto simp: parse_response_def parse_body_def loads_stripped_def handler_other
      split: sum.splits dest: build_result_exn)

lemma parse_response_Inr:
  assumes "strip_fence text = Inr t" and "loads (py_strip t) = Inr j"
    and "parse_response loads vf today text = Inr r"
  shows "build_result vf today j = Inr r"
  using assms by (auto simp: parse_response_loaded split: sum.splits)

lemma parse_response_Inl:
  assumes "strip_fence text = Inr t" and "loads (py_strip t) = Inr j"
    and "build_result vf today j = Inl e"
  shows "parse_response loads vf today text = Inl (HTTPException 500 (Failed_to_scan_receipt e))"
  using assms by (simp add: parse_response_loaded)

subsection \<open>The sample texts\<close>

lemma strip_fence_samples:
  "strip_fence ''{}'' = Inr ''{}''"
  "strip_fence text_confidence_low = Inr text_confidence_low"
  "strip_fence text_confidence_high = Inr text_confidence_high"
  "strip_fence text_groceries = Inr text_groceries"
  "strip_fence text_travel = Inr text_travel"
  "strip_fence text_bad_item = Inr text_bad_item"
  "strip_fence text_amount_word = Inr text_amount_word"
  "strip_fence text_amount_numeral = Inr text_amount_numeral"
  "strip_fence text_plain_keys = Inr text_plain_keys"
  "strip_fence text_extra_keys = Inr text_extra_keys"
  "strip_fence text_null_items = Inr text_null_items"
  "strip_fence text_not_json = Inr text_not_json"
  by code_simp+

lemma sample_loads_samples:
  "sample_loads (py_strip ''{}'') = Inr (JDict [])"
  "sample_loads (py_strip text_confidence_low) = Inr (JDict [(''confidence_score'', JInt (- 1))])"
  "sample_loads (py_strip text_confidence_high) =
     Inr (JDict [(''confidence_score'', JFloat (Finite (5 / 2)))])"
  "sample_loads (py_strip text_groceries) = Inr (JDict [(''category'', JStr ''Groceries'')])"
  "sample_loads (py_strip text_travel) = Inr (JDict [(''category'', JStr ''Travel'')])"
  "sample_loads (py_strip text_bad_item) =
     Inr (JDict [(''line_items'',
                   JList [JDict [(''description'', JStr ''Coffee'')],
                          JDict [(''quantity'', JInt 2)]])])"
  "sample_loads (py_strip text_amount_word) = Inr (JDict [(''amount'', JStr ''abc'')])"
  "sample_loads (py_strip text_amount_numeral) = Inr (JDict [(''amount'', JStr ''12.50'')])"
  "sample_loads (py_strip text_plain_keys) =
     Inr (JDict [(''vendor'', JStr ''X''),
                  (''line_items'', JList [JDict [(''description'', JStr ''a'')]])])"
  "sample_loads (py_strip text_extra_keys) =
     Inr (JDict [(''vendor'', JStr ''X''), (''note'', JInt 1),
                  (''line_items'',
                   JList [JDict [(''description'', JStr ''a''), (''sku'', JStr ''z'')]])])"
  "sample_loads (py_strip text_null_items) = Inr (JDict [(''line_items'', JNull)])"
  "sample_loads (py_strip text_not_json) = Inl JSONDecodeError"
  by code_simp+

lemma float_of_int_small:
  "float_of_int 0 = Inr (Finite 0)"
  "float_of_int (- 1) = Inr (Finite (- 1))"
  "float_of_int 2 = Inr (Finite 2)"
  by (simp_all add: float_eval)

lemma float_of_str_numeral: "float_of_str ''12.50'' = Inr (Finite (25 / 2))"
proof -
  have "float_strip ''12.50'' = ''12.50''"
    by (simp add: float_strip_def float_space_def float_whitespace_def)
  moreover have "remove_underscores None ''12.50'' = Some ''12.50''"
    by (simp add: isdigit_def)
  moreover have "parse_decimal ''12.50'' = Some (25 / 2)"
    by (simp add: parse_decimal_def parse_mantissa_def fraction_split_def exponent_of_def
        isdigit_def decimal_value_def digit_value_def pow10_def)
  moreover have "round_double (25 / 2) = Finite (25 / 2)"
    by (simp add: float_eval)
  ultimately show ?thesis
    by (simp add: float_of_str_def sign_split_def parse_unsigned_def lower_def)
qed

lemma float_of_str_word: "float_of_str ''abc'' = Inl ValueError"
proof -
  have "float_strip ''abc'' = ''abc''"
    by (simp add: float_strip_def float_space_def float_whitespace_def)
  moreover have "remove_underscores None ''abc'' = Some ''abc''"
    by (simp add: isdigit_def)
  moreover have "parse_decimal ''abc'' = None"
    by (simp add: parse_decimal_def parse_mantissa_def fraction_split_def isdigit_def)
  ultimately show ?thesis
    by (simp add: float_of_str_def sign_split_def parse_unsigned_def lower_def)
qed

lemmas build_eval =
  build_result.simps dict_get_def line_items_arg_def line_items_value_def
  ReceiptScanResult_init_def
  LineItem_fields_def field_def float_of_int_small

lemma build_result_empty:
  "build_result vf today (JDict []) =
     Inr \<lparr>vendor = ''Unknown'', date = today, amount = Finite 0, currency = ''USD'',
          category = ''Other'', payment_method = None, receipt_number = None,
          line_items = [], confidence_score = Finite (1 / 2)\<rparr>"
  by (simp add: build_eval)

section \<open>Defaults\<close>

text \<open>
  Claim C5. When \<^verbatim>\<open>json.loads\<close> reads the text \<^verbatim>\<open>{}\<close> as the empty dict, parsing that
  text succeeds with vendor \<^verbatim>\<open>Unknown\<close>, the current date, amount 0, currency
  \<^verbatim>\<open>USD\<close>, category \<^verbatim>\<open>Other\<close>, no payment method, no receipt number, no line items
  and confidence score 0.5.
\<close>

theorem parse_empty_object:
  assumes "loads ''{}'' = Inr (JDict [])"
  shows "parse_response loads vf today ''{}'' =
     Inr \<lparr>vendor = ''Unknown'', date = today, amount = Finite 0, currency = ''USD'',
          category = ''Other'', payment_method = None, receipt_number = None,
          line_items = [], confidence_score = Finite (1 / 2)\<rparr>"
proof -
  have "py_strip ''{}'' = ''{}''" by code_simp
  with assms have "loads (py_strip ''{}'') = Inr (JDict [])" by simp
  with strip_fence_samples(1) show ?thesis
    by (simp add: parse_response_loaded build_result_empty)
qed

theorem parse_empty_object_witness:
  "parse_response sample_loads sample_float sample_today ''{}'' =
     Inr \<lparr>vendor = ''Unknown'', date = sample_today, amount = Finite 0, currency = ''USD'',
          category = ''Other'', payment_method = None, receipt_number = None,
          line_items = [], confidence_score = Finite (1 / 2)\<rparr>"
proof -
  have "sample_loads ''{}'' = Inr (JDict [])" by code_simp
  then show ?thesis by (rule parse_empty_object)
qed

section \<open>Confidence score\<close>

text \<open>
  Claim C1 says that a confidence score outside \<open>[0, 1]\<close> is brought back into the
  interval. The handler has no such step: the scores \<open>-1\<close> and \<open>2.5\<close> are returned
  as they are.
\<close>

theorem confidence_score_clamp_counterexample:
  "parse_response sample_loads sample_float sample_today text_confidence_low =
     Inr \<lparr>vendor = ''Unknown'', date = sample_today, amount = Finite 0, currency = ''USD'',
          category = ''Other'', payment_method = None, receipt_number = None,
          line_items = [], confidence_score = Finite (- 1)\<rparr> \<and>
   \<not> in_unit_interval (Finite (- 1)) \<and>
   parse_response sample_loads sample_float sample_today text_confidence_high =
     Inr \<lparr>vendor = ''Unknown'', date = sample_today, amount = Finite 0, currency = ''USD'',
          category = ''Other'', payment_method = None, receipt_number = None,
          line_items = [], confidence_score = Finite (5 / 2)\<rparr> \<and>
   \<not> in_unit_interval (Finite (5 / 2))"
  by (simp add: parse_response_loaded [where loads = sample_loads, OF strip_fence_samples(2) sample_loads_samples(2)]
      parse_response_loaded [where loads = sample_loads, OF strip_fence_samples(3) sample_loads_samples(3)]
      build_eval in_unit_interval_def)

text \<open>
  Claim C1, amended. When the provider's object has a confidence score \<open>x\<close> and the
  scan returns a result, the result's confidence score is \<^verbatim>\<open>float(x)\<close>: a float is
  returned as it is, and so is an int of magnitude up to \<open>2 ^ 53\<close>. Nothing is clamped.
\<close>

theorem confidence_score_unchanged:
  assumes "strip_fence text = Inr t"
    and "loads (py_strip t) = Inr (JDict d)"
    and "map_of d ''confidence_score'' = Some x"
    and "parse_response loads vf today text = Inr r"
  shows "py_float x = Inr (confidence_score r) \<and>
    (\<forall>f. x = JFloat f \<longrightarrow> confidence_score r = f) \<and>
    (\<forall>n. x = JInt n \<longrightarrow> \<bar>n\<bar> \<le> 2 ^ 53 \<longrightarrow> confidence_score r = Finite (of_int n))"
proof -
  from assms(1,2,4) have "build_result vf today (JDict d) = Inr r"
    by (rule parse_response_Inr)
  then have "py_float (dict_get d ''confidence_score'' (JFloat (Finite (1 / 2)))) =
      Inr (confidence_score r)"
    by (simp add: build_result_Inr)
  with assms(3) have "py_float x = Inr (confidence_score r)"
    by (simp add: dict_get_present)
  then show ?thesis by (auto simp: float_of_int_exact)
qed

theorem confidence_score_unchanged_witness:
  "map_of [(''confidence_score'', JInt (- 1))] ''confidence_score'' = Some (JInt (- 1)) \<and>
   parse_response sample_loads sample_float sample_today text_confidence_low =
     Inr \<lparr>vendor = ''Unknown'', date = sample_today, amount = Finite 0, currency = ''USD'',
          category = ''Other'', payment_method = None, receipt_number = None,
          line_items = [], confidence_score = Finite (- 1)\<rparr> \<and>
   py_float (JInt (- 1)) = Inr (Finite (- 1))"
proof -
  have m: "map_of [(''confidence_score'', JInt (- 1))] ''confidence_score'' = Some (JInt (- 1))"
    by simp
  have p: "parse_response sample_loads sample_float sample_today text_confidence_low =
     Inr \<lparr>vendor = ''Unknown'', date = sample_today, amount = Finite 0, currency = ''USD'',
          category = ''Other'', payment_method = None, receipt_number = None,
          line_items = [], confidence_score = Finite (- 1)\<rparr>"
    by (simp add: parse_response_loaded [where loads = sample_loads, OF strip_fence_samples(2) sample_loads_samples(2)]
        build_eval)
  from confidence_score_unchanged [where loads = sample_loads, OF strip_fence_samples(2) sample_loads_samples(2) m p]
  have "py_float (JInt (- 1)) = Inr (Finite (- 1))" by simp
  with m p show ?thesis by blast
qed

section \<open>Category\<close>

text \<open>
  Claim C2 says that a category outside the ten labels becomes \<^verbatim>\<open>Other\<close>. The handler
  names the labels in its prompt only: the category \<^verbatim>\<open>Groceries\<close> is returned as it is.
\<close>

theorem category_normalizer_counterexample:
  "parse_response sample_loads sample_float sample_today text_groceries =
     Inr \<lparr>vendor = ''Unknown'', date = sample_today, amount = Finite 0, currency = ''USD'',
          category = ''Groceries'', payment_method = None, receipt_number = None,
          line_items = [], confidence_score = Finite (1 / 2)\<rparr> \<and>
   ''Groceries'' \<notin> set CATEGORIES"
  by (simp add: parse_response_loaded [where loads = sample_loads, OF strip_fence_samples(4) sample_loads_samples(4)]
      build_eval CATEGORIES_def)

text \<open>
  Claim C2, amended. When the scan returns a result, a category text of the provider's
  object is the result's category, unchanged, so each of the ten labels is kept and the
  result's category is one of them exactly when the provider's text is; \<^verbatim>\<open>Other\<close>
  stands in only for a missing category.
\<close>

theorem category_unchanged:
  assumes "strip_fence text = Inr t"
    and "loads (py_strip t) = Inr (JDict d)"
    and "parse_response loads vf today text = Inr r"
  shows "(\<forall>c. map_of d ''category'' = Some (JStr c) \<longrightarrow>
            category r = c \<and> (category r \<in> set CATEGORIES \<longleftrightarrow> c \<in> set CATEGORIES)) \<and>
    (map_of d ''category'' = None \<longrightarrow> category r = ''Other'')"
proof -
  from assms have "build_result vf today (JDict d) = Inr r"
    by (rule parse_response_Inr)
  then have "dict_get d ''category'' (JStr ''Other'') = JStr (category r)"
    by (simp add: build_result_Inr)
  then show ?thesis
    by (auto simp: dict_get_present dict_get_missing)
qed

theorem category_unchanged_witness:
  "parse_response sample_loads sample_float sample_today text_travel =
     Inr \<lparr>vendor = ''Unknown'', date = sample_today, amount = Finite 0, currency = ''USD'',
          category = ''Travel'', payment_method = None, receipt_number = None,
          line_items = [], confidence_score = Finite (1 / 2)\<rparr> \<and>
   map_of [(''category'', JStr ''Travel'')] ''category'' = Some (JStr ''Travel'') \<and>
   ''Travel'' \<in> set CATEGORIES"
proof -
  have p: "parse_response sample_loads sample_float sample_today text_travel =
     Inr \<lparr>vendor = ''Unknown'', date = sample_today, amount = Finite 0, currency = ''USD'',
          category = ''Travel'', payment_method = None, receipt_number = None,
          line_items = [], confidence_score = Finite (1 / 2)\<rparr>"
    by (simp add: parse_response_loaded [where loads = sample_loads, OF strip_fence_samples(5) sample_loads_samples(5)]
        build_eval)
  have m: "map_of [(''category'', JStr ''Travel'')] ''category'' = Some (JStr ''Travel'')"
    by simp
  have c: "''Travel'' \<in> set CATEGORIES" by (simp add: CATEGORIES_def)
  from category_unchanged [where loads = sample_loads, OF strip_fence_samples(5) sample_loads_samples(5) p] m c
  show ?thesis using p by simp
qed

section \<open>Line items\<close>

lemma validate_refused:
  assumes "dflt \<noteq> None"
  shows "field kw k dflt (validate_optional_float vf) = None \<longleftrightarrow>
    float_refused vf (map_of kw k)"
proof (cases "map_of kw k")
  case None
  with assms show ?thesis by (simp add: field_def)
next
  case (Some v)
  then show ?thesis by (cases v) (simp_all add: field_def)
qed

lemma description_refused:
  "field kw ''description'' None validate_str = None \<longleftrightarrow>
   (case map_of kw ''description'' of Some (JStr s) \<Rightarrow> False | _ \<Rightarrow> True)"
proof (cases "map_of kw ''description''")
  case None
  then show ?thesis by (simp add: field_def)
next
  case (Some v)
  then show ?thesis by (cases v) (simp_all add: field_def)
qed

lemma malformed_item_iff: "malformed_item vf item \<longleftrightarrow> isl (LineItem_init vf item)"
proof (cases item)
  case (JDict kw)
  have "isl (LineItem_init vf (JDict kw)) \<longleftrightarrow> LineItem_fields vf kw = None"
    by (simp split: option.splits)
  also have "\<dots> \<longleftrightarrow>
      field kw ''description'' None validate_str = None \<or>
      field kw ''quantity'' (Some (Some (Finite 1))) (validate_optional_float vf) = None \<or>
      field kw ''unit_price'' (Some None) (validate_optional_float vf) = None \<or>
      field kw ''total'' (Some None) (validate_optional_float vf) = None"
    by (simp add: LineItem_fields_def split: option.splits)
  also have "\<dots> \<longleftrightarrow> malformed_item vf (JDict kw)"
    by (simp add: malformed_item_def description_refused validate_refused)
  finally show ?thesis by (simp add: JDict)
qed (simp_all add: malformed_item_def)

lemma line_items_of_Inl:
  "item \<in> set items \<Longrightarrow> LineItem_init vf item = Inl e \<Longrightarrow> \<exists>e'. line_items_of vf items = Inl e'"
  by (induction items) (auto split: sum.splits)

lemma build_result_line_item_Inl:
  assumes "map_of d ''line_items'' = Some (JList items)"
    and "item \<in> set items" and "LineItem_init vf item = Inl e"
  shows "\<exists>e'. build_result vf today (JDict d) = Inl e'"
proof -
  from assms(2,3) obtain e' where "line_items_of vf items = Inl e'"
    using line_items_of_Inl by blast
  with assms(1) have "line_items_arg vf d = Inl e'"
    by (simp add: line_items_arg_def line_items_value_def dict_get_present)
  then show ?thesis
    by (auto simp: build_result.simps split: sum.splits)
qed

text \<open>
  Claim C3 says that a malformed line item makes the parse fail with the error kind of a
  malformed response. The parse does fail, but not with the failure that the handler
  sets apart for a response it cannot parse: an item without a description ends in the
  handler's last \<^verbatim>\<open>except\<close> clause, which answers every other exception as well.
\<close>

theorem malformed_item_kind_counterexample:
  "parse_response sample_loads sample_float sample_today text_bad_item =
     Inl (HTTPException 500 (Failed_to_scan_receipt ValidationError)) \<and>
   parse_response sample_loads sample_float sample_today text_not_json = Inl parse_failure \<and>
   HTTPException 500 (Failed_to_scan_receipt ValidationError) \<noteq> parse_failure"
proof -
  have "parse_response sample_loads sample_float sample_today text_bad_item =
     Inl (HTTPException 500 (Failed_to_scan_receipt ValidationError))"
    by (simp add: parse_response_loaded [where loads = sample_loads,
          OF strip_fence_samples(6) sample_loads_samples(6)]
        build_result.simps dict_get_def line_items_arg_def line_items_value_def
        LineItem_fields_def field_def float_of_int_small)
  moreover have "parse_response sample_loads sample_float sample_today text_not_json =
      Inl parse_failure"
    by (simp add: parse_response_def parse_body_def loads_stripped_def parse_failure_def
        strip_fence_samples(12) sample_loads_samples(12))
  ultimately show ?thesis by (simp add: parse_failure_def)
qed

text \<open>
  Claim C3, amended. When the provider's object has a list of line items and one element
  of it does not have the shape of \<^verbatim>\<open>LineItem\<close> (it is not an object, it has no
  description that is a str, or one of its optional numbers is refused), the whole parse
  fails with status 500 and the detail of the handler's last \<^verbatim>\<open>except\<close> clause, which
  is not the failure of a response that cannot be parsed. No result is returned, with or
  without the other items.
\<close>

theorem malformed_line_item_fails:
  assumes "strip_fence text = Inr t"
    and "loads (py_strip t) = Inr (JDict d)"
    and "map_of d ''line_items'' = Some (JList items)"
    and "item \<in> set items"
    and "malformed_item vf item"
  shows "\<exists>e. parse_response loads vf today text =
      Inl (HTTPException 500 (Failed_to_scan_receipt e)) \<and>
    HTTPException 500 (Failed_to_scan_receipt e) \<noteq> parse_failure"
proof -
  from assms(5) obtain e0 where "LineItem_init vf item = Inl e0"
    by (auto simp: malformed_item_iff isl_def simp del: LineItem_init.simps)
  then obtain e where "build_result vf today (JDict d) = Inl e"
    using build_result_line_item_Inl [OF assms(3,4)] by blast
  with assms(1,2) have "parse_response loads vf today text =
      Inl (HTTPException 500 (Failed_to_scan_receipt e))"
    by (rule parse_response_Inl)
  then show ?thesis by (auto simp: parse_failure_def)
qed

theorem malformed_line_item_fails_witness:
  "JDict [(''quantity'', JInt 2)] \<in>
     set [JDict [(''description'', JStr ''Coffee'')], JDict [(''quantity'', JInt 2)]] \<and>
   malformed_item sample_float (JDict [(''quantity'', JInt 2)]) \<and>
   (\<exists>e. parse_response sample_loads sample_float sample_today text_bad_item =
      Inl (HTTPException 500 (Failed_to_scan_receipt e)) \<and>
      HTTPException 500 (Failed_to_scan_receipt e) \<noteq> parse_failure)"
proof -
  have m: "map_of [(''line_items'',
                   JList [JDict [(''description'', JStr ''Coffee'')],
                          JDict [(''quantity'', JInt 2)]])] ''line_items'' =
      Some (JList [JDict [(''description'', JStr ''Coffee'')], JDict [(''quantity'', JInt 2)]])"
    by simp
  have i: "JDict [(''quantity'', JInt 2)] \<in>
     set [JDict [(''description'', JStr ''Coffee'')], JDict [(''quantity'', JInt 2)]]"
    by simp
  have d: "malformed_item sample_float (JDict [(''quantity'', JInt 2)])"
    by (simp add: malformed_item_def)
  from malformed_line_item_fails [where loads = sample_loads,
      OF strip_fence_samples(6) sample_loads_samples(6) m i d] i d
  show ?thesis by blast
qed

section \<open>Values of the wrong shape\<close>

lemma build_result_rejects:
  assumes "map_of d k = Some v" and "\<not> field_accepts vf k v"
  shows "\<exists>e. build_result vf today (JDict d) = Inl e"
proof -
  consider (num) "k = ''amount'' \<or> k = ''confidence_score''" "isl (py_float v)"
    | (str) "k = ''vendor'' \<or> k = ''date'' \<or> k = ''currency'' \<or> k = ''category''"
        "validate_str v = None"
    | (opt) "k = ''payment_method'' \<or> k = ''receipt_number''" "validate_optional_str v = None"
    | (items) "k = ''line_items''" "isl (line_items_value vf v)"
    using assms(2) by (auto simp: field_accepts_def split: if_splits)
  then show ?thesis
  proof cases
    case num
    with assms(1) show ?thesis
      by (auto simp: build_result.simps dict_get_present isl_def split: sum.splits)
  next
    case str
    with assms(1) show ?thesis
      by (auto simp: build_result.simps dict_get_present ReceiptScanResult_init_def
          split: sum.splits option.splits)
  next
    case opt
    with assms(1) show ?thesis
      by (auto simp: build_result.simps dict_get_present ReceiptScanResult_init_def
          split: sum.splits option.splits)
  next
    case items
    with assms(1) show ?thesis
      by (auto simp: build_result.simps line_items_arg_def dict_get_present isl_def
          split: sum.splits)
  qed
qed

lemma dict_get_cases:
  "f (dict_get d k dflt) = y \<longleftrightarrow> (case map_of d k of None \<Rightarrow> f dflt = y | Some v \<Rightarrow> f v = y)"
  by (simp add: dict_get_def split: option.splits)

lemma build_result_fields:
  assumes "build_result vf today (JDict d) = Inr r"
  shows "(case map_of d ''vendor'' of
            None \<Rightarrow> vendor r = ''Unknown'' | Some v \<Rightarrow> v = JStr (vendor r)) \<and>
    (case map_of d ''date'' of None \<Rightarrow> date r = today | Some v \<Rightarrow> v = JStr (date r)) \<and>
    (case map_of d ''amount'' of
       None \<Rightarrow> amount r = Finite 0 | Some v \<Rightarrow> py_float v = Inr (amount r)) \<and>
    (case map_of d ''currency'' of
       None \<Rightarrow> currency r = ''USD'' | Some v \<Rightarrow> v = JStr (currency r)) \<and>
    (case map_of d ''category'' of
       None \<Rightarrow> category r = ''Other'' | Some v \<Rightarrow> v = JStr (category r)) \<and>
    (case map_of d ''payment_method'' of
       None \<Rightarrow> payment_method r = None
     | Some v \<Rightarrow> validate_optional_str v = Some (payment_method r)) \<and>
    (case map_of d ''receipt_number'' of
       None \<Rightarrow> receipt_number r = None
     | Some v \<Rightarrow> validate_optional_str v = Some (receipt_number r)) \<and>
    (case map_of d ''line_items'' of
       None \<Rightarrow> line_items r = [] | Some v \<Rightarrow> line_items_value vf v = Inr (line_items r)) \<and>
    (case map_of d ''confidence_score'' of
       None \<Rightarrow> confidence_score r = Finite (1 / 2)
     | Some v \<Rightarrow> py_float v = Inr (confidence_score r))"
proof -
  from build_result_Inr [OF assms]
  have a: "py_float (dict_get d ''amount'' (JInt 0)) = Inr (amount r)"
    and l: "line_items_value vf (dict_get d ''line_items'' (JList [])) = Inr (line_items r)"
    and c: "py_float (dict_get d ''confidence_score'' (JFloat (Finite (1 / 2)))) =
      Inr (confidence_score r)"
    and v: "id (dict_get d ''vendor'' (JStr ''Unknown'')) = JStr (vendor r)"
    and dt: "id (dict_get d ''date'' (JStr today)) = JStr (date r)"
    and cu: "id (dict_get d ''currency'' (JStr ''USD'')) = JStr (currency r)"
    and ca: "id (dict_get d ''category'' (JStr ''Other'')) = JStr (category r)"
    and pm: "validate_optional_str (dict_get d ''payment_method'' JNull) =
      Some (payment_method r)"
    and rn: "validate_optional_str (dict_get d ''receipt_number'' JNull) =
      Some (receipt_number r)"
    by (simp_all add: line_items_arg_def)
  have 1: "case map_of d ''vendor'' of
      None \<Rightarrow> vendor r = ''Unknown'' | Some v \<Rightarrow> v = JStr (vendor r)"
    using v unfolding dict_get_cases by (auto split: option.splits)
  have 2: "case map_of d ''date'' of None \<Rightarrow> date r = today | Some v \<Rightarrow> v = JStr (date r)"
    using dt unfolding dict_get_cases by (auto split: option.splits)
  have 3: "case map_of d ''amount'' of
      None \<Rightarrow> amount r = Finite 0 | Some v \<Rightarrow> py_float v = Inr (amount r)"
    using a unfolding dict_get_cases by (auto simp: float_of_int_small split: option.splits)
  have 4: "case map_of d ''currency'' of
      None \<Rightarrow> currency r = ''USD'' | Some v \<Rightarrow> v = JStr (currency r)"
    using cu unfolding dict_get_cases by (auto split: option.splits)
  have 5: "case map_of d ''category'' of
      None \<Rightarrow> category r = ''Other'' | Some v \<Rightarrow> v = JStr (category r)"
    using ca unfolding dict_get_cases by (auto split: option.splits)
  have 6: "case map_of d ''payment_method'' of
      None \<Rightarrow> payment_method r = None
    | Some v \<Rightarrow> validate_optional_str v = Some (payment_method r)"
    using pm unfolding dict_get_cases by (auto split: option.splits)
  have 7: "case map_of d ''receipt_number'' of
      None \<Rightarrow> receipt_number r = None
    | Some v \<Rightarrow> validate_optional_str v = Some (receipt_number r)"
    using rn unfolding dict_get_cases by (auto split: option.splits)
  have 8: "case map_of d ''line_items'' of
      None \<Rightarrow> line_items r = [] | Some v \<Rightarrow> line_items_value vf v = Inr (line_items r)"
    using l unfolding dict_get_cases by (auto simp: line_items_value_def split: option.splits)
  have 9: "case map_of d ''confidence_score'' of
      None \<Rightarrow> confidence_score r = Finite (1 / 2)
    | Some v \<Rightarrow> py_float v = Inr (confidence_score r)"
    using c unfolding dict_get_cases by (auto split: option.splits)
  from 1 2 3 4 5 6 7 8 9 show ?thesis by (intro conjI)
qed

text \<open>
  Claim C9 says that a value of the wrong shape is replaced by the field's default when it
  cannot be coerced. The handler never does that: an amount that does not read as a
  number makes the whole scan fail with status 500.
\<close>

theorem wrong_shape_default_counterexample:
  "parse_response sample_loads sample_float sample_today text_amount_word =
     Inl (HTTPException 500 (Failed_to_scan_receipt ValueError))"
  by (simp add: parse_response_loaded [where loads = sample_loads,
        OF strip_fence_samples(7) sample_loads_samples(7)]
      build_result.simps dict_get_def float_of_str_word)

text \<open>
  Claim C9, amended. A str given for the amount or the confidence score is read by
  \<^verbatim>\<open>float\<close>, so that \<^verbatim>\<open>"12.50"\<close> becomes 12.5. A field of the schema that is present
  with a value that its conversion refuses makes the parse fail with status 500. In a
  result that is returned, every field whose key is present is the conversion of the
  value given, and the default of a field stands for a missing key.
\<close>

theorem wrong_shape_converted_or_refused:
  assumes "strip_fence text = Inr t"
    and "loads (py_strip t) = Inr (JDict d)"
  shows "(\<forall>k v. map_of d k = Some v \<longrightarrow> \<not> field_accepts vf k v \<longrightarrow>
            (\<exists>e. parse_response loads vf today text =
               Inl (HTTPException 500 (Failed_to_scan_receipt e)))) \<and>
    (\<forall>r. parse_response loads vf today text = Inr r \<longrightarrow>
       (case map_of d ''vendor'' of
          None \<Rightarrow> vendor r = ''Unknown'' | Some v \<Rightarrow> v = JStr (vendor r)) \<and>
       (case map_of d ''date'' of None \<Rightarrow> date r = today | Some v \<Rightarrow> v = JStr (date r)) \<and>
       (case map_of d ''amount'' of
          None \<Rightarrow> amount r = Finite 0 | Some v \<Rightarrow> py_float v = Inr (amount r)) \<and>
       (case map_of d ''currency'' of
          None \<Rightarrow> currency r = ''USD'' | Some v \<Rightarrow> v = JStr (currency r)) \<and>
       (case map_of d ''category'' of
          None \<Rightarrow> category r = ''Other'' | Some v \<Rightarrow> v = JStr (category r)) \<and>
       (case map_of d ''payment_method'' of
          None \<Rightarrow> payment_method r = None
        | Some v \<Rightarrow> validate_optional_str v = Some (payment_method r)) \<and>
       (case map_of d ''receipt_number'' of
          None \<Rightarrow> receipt_number r = None
        | Some v \<Rightarrow> validate_optional_str v = Some (receipt_number r)) \<and>
       (case map_of d ''line_items'' of
          None \<Rightarrow> line_items r = []
        | Some v \<Rightarrow> line_items_value vf v = Inr (line_items r)) \<and>
       (case map_of d ''confidence_score'' of
          None \<Rightarrow> confidence_score r = Finite (1 / 2)
        | Some v \<Rightarrow> py_float v = Inr (confidence_score r))) \<and>
    py_float (JStr ''12.50'') = Inr (Finite (25 / 2))"
proof (intro conjI allI impI)
  fix k v
  assume "map_of d k = Some v" and "\<not> field_accepts vf k v"
  then obtain e where "build_result vf today (JDict d) = Inl e"
    using build_result_rejects by blast
  with assms have "parse_response loads vf today text =
      Inl (HTTPException 500 (Failed_to_scan_receipt e))"
    by (rule parse_response_Inl)
  then show "\<exists>e. parse_response loads vf today text =
      Inl (HTTPException 500 (Failed_to_scan_receipt e))" ..
next
  show "py_float (JStr ''12.50'') = Inr (Finite (25 / 2))"
    by (simp add: float_of_str_numeral)
qed (use build_result_fields [OF parse_response_Inr [where loads = loads, OF assms]] in blast)+

theorem wrong_shape_converted_or_refused_witness:
  "\<not> field_accepts sample_float ''amount'' (JStr ''abc'') \<and>
   (\<exists>e. parse_response sample_loads sample_float sample_today text_amount_word =
      Inl (HTTPException 500 (Failed_to_scan_receipt e))) \<and>
   \<not> field_accepts sample_float ''line_items'' JNull \<and>
   (\<exists>e. parse_response sample_loads sample_float sample_today text_null_items =
      Inl (HTTPException 500 (Failed_to_scan_receipt e))) \<and>
   parse_response sample_loads sample_float sample_today text_amount_numeral =
     Inr \<lparr>vendor = ''Unknown'', date = sample_today, amount = Finite (25 / 2),
          currency = ''USD'', category = ''Other'', payment_method = None,
          receipt_number = None, line_items = [], confidence_score = Finite (1 / 2)\<rparr> \<and>
   py_float (JStr ''12.50'') = Inr (Finite (25 / 2))"
proof -
  have a: "\<not> field_accepts sample_float ''amount'' (JStr ''abc'')"
    by (simp add: field_accepts_def float_of_str_word)
  have m: "map_of [(''amount'', JStr ''abc'')] ''amount'' = Some (JStr ''abc'')"
    by simp
  have f: "\<exists>e. parse_response sample_loads sample_float sample_today text_amount_word =
      Inl (HTTPException 500 (Failed_to_scan_receipt e))"
    using wrong_shape_converted_or_refused [where loads = sample_loads,
        OF strip_fence_samples(7) sample_loads_samples(7)] m a
    by blast
  have b: "\<not> field_accepts sample_float ''line_items'' JNull"
    by (simp add: field_accepts_def line_items_value_def)
  have n: "map_of [(''line_items'', JNull)] ''line_items'' = Some JNull"
    by simp
  have g: "\<exists>e. parse_response sample_loads sample_float sample_today text_null_items =
      Inl (HTTPException 500 (Failed_to_scan_receipt e))"
    using wrong_shape_converted_or_refused [where loads = sample_loads,
        OF strip_fence_samples(11) sample_loads_samples(11)] n b
    by blast
  have p: "parse_response sample_loads sample_float sample_today text_amount_numeral =
     Inr \<lparr>vendor = ''Unknown'', date = sample_today, amount = Finite (25 / 2),
          currency = ''USD'', category = ''Other'', payment_method = None,
          receipt_number = None, line_items = [], confidence_score = Finite (1 / 2)\<rparr>"
    by (simp add: parse_response_loaded [where loads = sample_loads,
          OF strip_fence_samples(8) sample_loads_samples(8)]
        build_eval float_of_str_numeral)
  have c: "py_float (JStr ''12.50'') = Inr (Finite (25 / 2))"
    using wrong_shape_converted_or_refused [where loads = sample_loads,
        OF strip_fence_samples(8) sample_loads_samples(8)]
    by blast
  from a f b g p c show ?thesis by blast
qed

section \<open>Keys outside the schema\<close>

lemma items_agree_LineItem_init:
  assumes "items_agree x y"
  shows "LineItem_init vf x = LineItem_init vf y"
proof (cases "(\<exists>a. x = JDict a) \<and> (\<exists>b. y = JDict b)")
  case True
  then obtain a b where xy: "x = JDict a" "y = JDict b" by blast
  with assms have "\<forall>k \<in> set item_keys. map_of a k = map_of b k" by simp
  then have "LineItem_fields vf a = LineItem_fields vf b"
    by (simp add: LineItem_fields_def field_def item_keys_def cong: option.case_cong)
  with xy show ?thesis by simp
next
  case False
  with assms have "x = y"
    by (cases x; cases y) auto
  then show ?thesis by simp
qed

lemma items_agree_line_items_of:
  "list_all2 items_agree xs ys \<Longrightarrow> line_items_of vf xs = line_items_of vf ys"
  by (induction rule: list_all2_induct)
    (auto simp: items_agree_LineItem_init cong: sum.case_cong)

lemma line_items_agree_arg:
  assumes "line_items_agree (map_of a ''line_items'') (map_of b ''line_items'')"
  shows "line_items_arg vf a = line_items_arg vf b"
proof (cases "(\<exists>xs. map_of a ''line_items'' = Some (JList xs)) \<and>
    (\<exists>ys. map_of b ''line_items'' = Some (JList ys))")
  case True
  then obtain xs ys where m: "map_of a ''line_items'' = Some (JList xs)"
      "map_of b ''line_items'' = Some (JList ys)"
    by blast
  with assms have "list_all2 items_agree xs ys" by simp
  then have "line_items_of vf xs = line_items_of vf ys"
    by (rule items_agree_line_items_of)
  with m show ?thesis
    by (simp add: line_items_arg_def line_items_value_def dict_get_present)
next
  case False
  with assms have "map_of a ''line_items'' = map_of b ''line_items''"
    by (auto elim!: line_items_agree.elims)
  then show ?thesis
    by (simp add: line_items_arg_def dict_get_def)
qed

lemma objects_agree_build_result:
  assumes "objects_agree a b"
  shows "build_result vf today (JDict a) = build_result vf today (JDict b)"
proof -
  from assms have "\<forall>k \<in> set scalar_keys. map_of a k = map_of b k"
    and l: "line_items_agree (map_of a ''line_items'') (map_of b ''line_items'')"
    by (simp_all add: objects_agree_def)
  then have "\<And>dflt. \<forall>k \<in> set scalar_keys. dict_get a k dflt = dict_get b k dflt"
    by (simp add: dict_get_def)
  then have g: "\<And>dflt. dict_get a ''vendor'' dflt = dict_get b ''vendor'' dflt"
    "\<And>dflt. dict_get a ''date'' dflt = dict_get b ''date'' dflt"
    "\<And>dflt. dict_get a ''amount'' dflt = dict_get b ''amount'' dflt"
    "\<And>dflt. dict_get a ''currency'' dflt = dict_get b ''currency'' dflt"
    "\<And>dflt. dict_get a ''category'' dflt = dict_get b ''category'' dflt"
    "\<And>dflt. dict_get a ''payment_method'' dflt = dict_get b ''payment_method'' dflt"
    "\<And>dflt. dict_get a ''receipt_number'' dflt = dict_get b ''receipt_number'' dflt"
    "\<And>dflt. dict_get a ''confidence_score'' dflt = dict_get b ''confidence_score'' dflt"
    by (simp_all add: scalar_keys_def)
  show ?thesis
    by (simp add: build_result.simps g line_items_agree_arg [OF l] cong: sum.case_cong)
qed

text \<open>
  Claim C10. When the objects of two provider responses agree on the nine fields of the
  schema, and their line items agree one by one on description, quantity, unit price and
  total, the two parses end the same way: with the same result, or with the same failure.
  A key outside the schema is never read.
\<close>

theorem keys_outside_schema_ignored:
  assumes "strip_fence text1 = Inr t1" and "loads (py_strip t1) = Inr (JDict d1)"
    and "strip_fence text2 = Inr t2" and "loads (py_strip t2) = Inr (JDict d2)"
    and "objects_agree d1 d2"
  shows "parse_response loads vf today text1 = parse_response loads vf today text2"
proof -
  have "parse_response loads vf today text1 =
      (case build_result vf today (JDict d1) of
         Inl e \<Rightarrow> Inl (HTTPException 500 (Failed_to_scan_receipt e))
       | Inr r \<Rightarrow> Inr r)"
    using assms(1,2) by (rule parse_response_loaded)
  moreover have "parse_response loads vf today text2 =
      (case build_result vf today (JDict d2) of
         Inl e \<Rightarrow> Inl (HTTPException 500 (Failed_to_scan_receipt e))
       | Inr r \<Rightarrow> Inr r)"
    using assms(3,4) by (rule parse_response_loaded)
  ultimately show ?thesis
    by (simp add: objects_agree_build_result [OF assms(5)])
qed

theorem keys_outside_schema_ignored_witness:
  "objects_agree
     [(''vendor'', JStr ''X''), (''note'', JInt 1),
      (''line_items'', JList [JDict [(''description'', JStr ''a''), (''sku'', JStr ''z'')]])]
     [(''vendor'', JStr ''X''),
      (''line_items'', JList [JDict [(''description'', JStr ''a'')]])] \<and>
   parse_response sample_loads sample_float sample_today text_extra_keys =
     parse_response sample_loads sample_float sample_today text_plain_keys \<and>
   parse_response sample_loads sample_float sample_today text_plain_keys =
     Inr \<lparr>vendor = ''X'', date = sample_today, amount = Finite 0, currency = ''USD'',
          category = ''Other'', payment_method = None, receipt_number = None,
          line_items = [\<lparr>description = ''a'', quantity = Some (Finite 1),
                          unit_price = None, total_field = None\<rparr>],
          confidence_score = Finite (1 / 2)\<rparr>"
proof -
  have a: "objects_agree
     [(''vendor'', JStr ''X''), (''note'', JInt 1),
      (''line_items'', JList [JDict [(''description'', JStr ''a''), (''sku'', JStr ''z'')]])]
     [(''vendor'', JStr ''X''),
      (''line_items'', JList [JDict [(''description'', JStr ''a'')]])]"
    by (simp add: objects_agree_def scalar_keys_def item_keys_def)
  have e: "parse_response sample_loads sample_float sample_today text_extra_keys =
     parse_response sample_loads sample_float sample_today text_plain_keys"
    by (rule keys_outside_schema_ignored [where loads = sample_loads,
          OF strip_fence_samples(10) sample_loads_samples(10)
             strip_fence_samples(9) sample_loads_samples(9) a])
  have p: "parse_response sample_loads sample_float sample_today text_plain_keys =
     Inr \<lparr>vendor = ''X'', date = sample_today, amount = Finite 0, currency = ''USD'',
          category = ''Other'', payment_method = None, receipt_number = None,
          line_items = [\<lparr>description = ''a'', quantity = Some (Finite 1),
                          unit_price = None, total_field = None\<rparr>],
          confidence_score = Finite (1 / 2)\<rparr>"
    by (simp add: parse_response_loaded [where loads = sample_loads,
          OF strip_fence_samples(9) sample_loads_samples(9)]
        build_eval)
  from a e p show ?thesis by blast
qed

section \<open>Fences\<close>

lemma py_partition_None: "sep \<noteq> [] \<Longrightarrow> \<not> sublist sep s \<Longrightarrow> py_partition sep s = None"
  by (induction s) (auto simp: sublist_Cons_right)

lemma py_partition_first:
  assumes "sep \<noteq> []" and "\<not> sublist sep (b @ butlast sep)"
  shows "py_partition sep (b @ sep @ a) = Some (b, a)"
  using assms(2)
proof (induction b)
  case Nil
  show ?case
    using assms(1) by (cases sep) auto
next
  case (Cons c b)
  have "\<not> prefix sep (c # b @ sep @ a)"
  proof
    assume p: "prefix sep (c # b @ sep @ a)"
    have "prefix (c # b @ butlast sep) (c # b @ sep @ a)"
      using assms(1) by (metis Cons_prefix_Cons append_butlast_last_id append.assoc
          prefixI same_prefix_prefix)
    moreover have "length sep \<le> length (c # b @ butlast sep)"
      by simp
    ultimately have "prefix sep (c # b @ butlast sep)"
      using p by (metis prefix_length_prefix)
    with Cons.prems show False by auto
  qed
  moreover from Cons.prems have "\<not> sublist sep (b @ butlast sep)"
    by (auto simp: sublist_Cons_right)
  ultimately show ?case
    using Cons.IH by simp
qed

lemma sublist_across:
  assumes "c \<notin> set xs" and "xs \<noteq> []"
  shows "sublist xs (ys @ c # zs) \<longleftrightarrow> sublist xs ys \<or> sublist xs zs"
proof
  assume "sublist xs (ys @ c # zs)"
  then consider "sublist xs ys" | "sublist xs (c # zs)"
    | xs1 xs2 where "xs = xs1 @ xs2" "suffix xs1 ys" "prefix xs2 (c # zs)"
    by (auto simp: sublist_append)
  then show "sublist xs ys \<or> sublist xs zs"
  proof cases
    case 1
    then show ?thesis ..
  next
    case 2
    with assms show ?thesis
      by (cases xs) (auto simp: sublist_Cons_right)
  next
    case 3
    with assms(1) have "xs2 = []"
      by (cases xs2) auto
    with 3 show ?thesis by auto
  qed
next
  assume "sublist xs ys \<or> sublist xs zs"
  then show "sublist xs (ys @ c # zs)"
    by (metis sublist_append sublist_Cons_right)
qed

lemma py_split_none: "sep \<noteq> [] \<Longrightarrow> \<not> sublist sep s \<Longrightarrow> py_split sep s = [s]"
  by (subst py_split.simps) (simp add: py_partition_None)

lemma py_split_first:
  "sep \<noteq> [] \<Longrightarrow> \<not> sublist sep (b @ butlast sep) \<Longrightarrow>
   py_split sep (b @ sep @ a) = b # py_split sep a"
  by (subst py_split.simps) (simp add: py_partition_first)

lemma newline_not_in_fence:
  "CHR ''\<newline>'' \<notin> set fence" "CHR ''\<newline>'' \<notin> set fence_json"
  "fence \<noteq> []" "fence_json \<noteq> []"
  by (simp_all add: fence_def fence_json_def)

lemma fence_json_sublist: "sublist fence_json s \<Longrightarrow> sublist fence s"
proof -
  have "sublist fence fence_json"
    by (simp add: fence_def fence_json_def sublist_Cons_right)
  then show "sublist fence_json s \<Longrightarrow> sublist fence s"
    by (metis sublist_order.order.trans)
qed

lemma no_fence_in_short:
  "\<not> sublist fence (butlast fence)" "\<not> sublist fence_json fence"
  "\<not> sublist fence_json (butlast fence_json)"
  by (simp_all add: fence_def fence_json_def sublist_Cons_right)

lemma no_fence_framed:
  assumes "\<not> sublist fence t"
  shows "\<not> sublist fence (''\<newline>'' @ t @ ''\<newline>'')"
    and "\<not> sublist fence (''\<newline>'' @ t @ ''\<newline>'' @ butlast fence)"
    and "\<not> sublist fence_json (''\<newline>'' @ t @ ''\<newline>'' @ fence)"
proof -
  have a: "\<And>zs. sublist fence (''\<newline>'' @ t @ ''\<newline>'' @ zs) \<longleftrightarrow> sublist fence zs"
    using assms sublist_across [OF newline_not_in_fence(1,3), of "[]"]
      sublist_across [OF newline_not_in_fence(1,3), of t]
    by (simp add: newline_not_in_fence)
  from a [of "[]"] show "\<not> sublist fence (''\<newline>'' @ t @ ''\<newline>'')"
    by (simp add: newline_not_in_fence)
  from a [of "butlast fence"]
  show "\<not> sublist fence (''\<newline>'' @ t @ ''\<newline>'' @ butlast fence)"
    by (simp add: no_fence_in_short)
  from assms have "\<not> sublist fence_json t"
    using fence_json_sublist by blast
  then have "sublist fence_json (''\<newline>'' @ t @ ''\<newline>'' @ fence) \<longleftrightarrow> sublist fence_json fence"
    using sublist_across [OF newline_not_in_fence(2,4), of "[]"]
      sublist_across [OF newline_not_in_fence(2,4), of t]
    by (simp add: newline_not_in_fence)
  then show "\<not> sublist fence_json (''\<newline>'' @ t @ ''\<newline>'' @ fence)"
    by (simp add: no_fence_in_short)
qed

lemma strip_fence_none:
  assumes "\<not> sublist fence t"
  shows "strip_fence t = Inr t"
  using assms fence_json_sublist by (auto simp: strip_fence_def)

lemma strip_fence_wrap_json:
  assumes "\<not> sublist fence t"
  shows "strip_fence (wrap_json t) = Inr (''\<newline>'' @ t @ ''\<newline>'')"
proof -
  let ?inner = "''\<newline>'' @ t @ ''\<newline>'' @ fence"
  have "py_split fence_json (wrap_json t) = [] # py_split fence_json ?inner"
    using py_split_first [of fence_json "[]" ?inner]
    by (simp add: wrap_json_def newline_not_in_fence no_fence_in_short)
  also have "py_split fence_json ?inner = [?inner]"
    using no_fence_framed(3) [OF assms]
    by (intro py_split_none) (simp_all add: newline_not_in_fence)
  finally have outer: "py_index (py_split fence_json (wrap_json t)) 1 = Inr ?inner"
    by (simp add: py_index_def)
  have "py_split fence ?inner = (''\<newline>'' @ t @ ''\<newline>'') # py_split fence []"
    using py_split_first [of fence "''\<newline>'' @ t @ ''\<newline>''" "[]"]
      no_fence_framed(2) [OF assms]
    by (simp add: newline_not_in_fence)
  then have inner: "py_index (py_split fence ?inner) 0 = Inr (''\<newline>'' @ t @ ''\<newline>'')"
    by (simp add: py_index_def)
  have "sublist fence_json (wrap_json t)"
    by (simp add: wrap_json_def)
  with outer inner show ?thesis
    by (simp add: strip_fence_def between_fences_def)
qed

lemma strip_fence_wrap_plain:
  assumes "\<not> sublist fence t"
  shows "strip_fence (wrap_plain t) = Inr (''\<newline>'' @ t @ ''\<newline>'')"
proof -
  let ?inner = "''\<newline>'' @ t @ ''\<newline>''"
  have nj: "\<not> sublist fence_json (wrap_plain t)"
  proof
    assume "sublist fence_json (wrap_plain t)"
    then have "sublist fence_json (fence @ CHR ''\<newline>'' # (t @ ''\<newline>'' @ fence))"
      by (simp add: wrap_plain_def)
    then have "sublist fence_json fence \<or> sublist fence_json (t @ ''\<newline>'' @ fence)"
      by (simp add: sublist_across [OF newline_not_in_fence(2,4)])
    then have "sublist fence_json (''\<newline>'' @ t @ ''\<newline>'' @ fence)"
      by (auto simp: no_fence_in_short sublist_Cons_right)
    with no_fence_framed(3) [OF assms] show False ..
  qed
  have "py_split fence (wrap_plain t) = [] # py_split fence (?inner @ fence @ [])"
    using py_split_first [of fence "[]" "?inner @ fence"]
    by (simp add: wrap_plain_def newline_not_in_fence no_fence_in_short)
  also have "py_split fence (?inner @ fence @ []) = ?inner # py_split fence []"
    using no_fence_framed(2) [OF assms]
    by (intro py_split_first) (simp_all add: newline_not_in_fence)
  finally have outer: "py_index (py_split fence (wrap_plain t)) 1 = Inr ?inner"
    by (simp add: py_index_def)
  have "py_split fence ?inner = [?inner]"
    using no_fence_framed(1) [OF assms]
    by (intro py_split_none) (simp_all add: newline_not_in_fence)
  then have inner: "py_index (py_split fence ?inner) 0 = Inr ?inner"
    by (simp add: py_index_def)
  have "sublist fence (wrap_plain t)"
    by (simp add: wrap_plain_def)
  with nj outer inner show ?thesis
    by (simp add: strip_fence_def between_fences_def)
qed

lemma dropWhile_all: "\<forall>c \<in> set s. P c \<Longrightarrow> dropWhile P s = []"
  by (induction s) auto

lemma py_strip_snoc: "isspace w \<Longrightarrow> py_strip (s @ [w]) = py_strip s"
proof (cases "\<forall>c \<in> set s. isspace c")
  case True
  assume "isspace w"
  with True have "\<forall>c \<in> set (s @ [w]). isspace c" by simp
  then have "dropWhile isspace (s @ [w]) = []" by (rule dropWhile_all)
  moreover from True have "dropWhile isspace s = []" by (rule dropWhile_all)
  ultimately show ?thesis by (simp only: py_strip_def rev.simps dropWhile.simps)
next
  case False
  assume w: "isspace w"
  from False obtain c where "c \<in> set s" "\<not> isspace c" by blast
  then have "dropWhile isspace (s @ [w]) = dropWhile isspace s @ [w]"
    by (rule dropWhile_append1)
  with w show ?thesis by (simp add: py_strip_def)
qed

lemma py_strip_Cons: "isspace w \<Longrightarrow> py_strip (w # s) = py_strip s"
  by (simp add: py_strip_def)

lemma py_strip_framed: "py_strip (''\<newline>'' @ t @ ''\<newline>'') = py_strip t"
proof -
  have "isspace CHR ''\<newline>''"
    by (simp add: isspace_def whitespace_def)
  then show ?thesis
    using py_strip_snoc [of "CHR ''\<newline>''" "CHR ''\<newline>'' # t"] by (simp add: py_strip_Cons)
qed

lemma strip_fence_text_fenced:
  "strip_fence text_fenced = Inr ''\<newline>{}\<newline>''"
  "strip_fence (wrap_json text_fenced) = Inr ''\<newline>''"
  by code_simp+

lemma sample_loads_fenced:
  "sample_loads (py_strip ''\<newline>{}\<newline>'') = Inr (JDict [])"
  "sample_loads (py_strip ''\<newline>'') = Inl JSONDecodeError"
  by code_simp+

text \<open>
  Claim C4 says that wrapping any text in one level of fencing leaves the parse
  unchanged. It does not when the text has a fence of its own: the fenced empty object
  parses to the defaults, and the same text inside a second fence is cut at the first
  closing delimiter, leaving nothing to read, so the parse fails.
\<close>

theorem fence_roundtrip_counterexample:
  "parse_response sample_loads sample_float sample_today text_fenced =
     Inr \<lparr>vendor = ''Unknown'', date = sample_today, amount = Finite 0, currency = ''USD'',
          category = ''Other'', payment_method = None, receipt_number = None,
          line_items = [], confidence_score = Finite (1 / 2)\<rparr> \<and>
   parse_response sample_loads sample_float sample_today (wrap_json text_fenced) =
     Inl (HTTPException 500 Failed_to_parse_AI_response)"
  by (simp add: parse_response_def parse_body_def loads_stripped_def strip_fence_text_fenced
      sample_loads_fenced build_result_empty)

text \<open>
  Claim C4, amended. For every text that contains no fence delimiter, parsing the text
  wrapped in one level of fencing, with or without the \<^verbatim>\<open>json\<close> tag, gives the result
  of parsing the text itself: the parser takes what stands between the opening delimiter
  and the next one. A text without a delimiter is parsed as it is.
\<close>

theorem fence_stripped_once:
  assumes "\<not> sublist fence t"
  shows "parse_response loads vf today (wrap_json t) = parse_response loads vf today t \<and>
    parse_response loads vf today (wrap_plain t) = parse_response loads vf today t \<and>
    strip_fence t = Inr t"
  by (simp add: parse_response_def parse_body_def loads_stripped_def
      strip_fence_wrap_json [OF assms] strip_fence_wrap_plain [OF assms]
      strip_fence_none [OF assms] py_strip_framed del: append.simps)

theorem fence_stripped_once_witness:
  "\<not> sublist fence ''{}'' \<and> wrap_json ''{}'' = text_fenced \<and>
   parse_response sample_loads sample_float sample_today text_fenced =
     parse_response sample_loads sample_float sample_today ''{}'' \<and>
   strip_fence ''{}'' = Inr ''{}''"
proof -
  have n: "\<not> sublist fence ''{}''" by code_simp
  have w: "wrap_json ''{}'' = text_fenced" by code_simp
  from fence_stripped_once [OF n, of sample_loads sample_float sample_today] n w
  show ?thesis by simp
qed

end
